theory Spec2Isabelle
  imports Complex_Main
begin

section \<open>Data model of particle\_filter.cpp\<close>

text \<open>
  The C++ type \<open>double\<close> is modelled by \<open>real\<close> and \<open>int\<close> by \<open>int\<close>. The field names
  of the source are kept; \<open>id\<close>, \<open>x\<close> and \<open>y\<close> occur in two structs and carry a suffix
  (\<open>_p\<close> for \<open>Particle\<close>, \<open>_o\<close> for \<open>LandmarkObs\<close>).
\<close>

record Particle =
  id_p :: int
  x_p :: real
  y_p :: real
  theta :: real
  weight :: real
  associations :: "int list"
  sense_x :: "real list"
  sense_y :: "real list"

record LandmarkObs =
  id_o :: int
  x_o :: real
  y_o :: real

record single_landmark_s =
  id_i :: int
  x_f :: real
  y_f :: real

record Map_s =
  landmark_list :: "single_landmark_s list"

record ParticleFilter =
  num_particles :: int
  is_initialized :: bool
  particles :: "Particle list"

text \<open>Indexing a \<open>std::vector\<close> outside its bounds is undefined behaviour; the model
  reports it as an error value.\<close>

datatype error = OutOfRange

section \<open>The random-number library\<close>

text \<open>
  \<open>std::default_random_engine\<close>, \<open>std::normal_distribution\<close> and
  \<open>std::discrete_distribution\<close> belong to the C++ standard library, not to the
  repository. They are a parameter of the model: \<open>'g\<close> is the state of an engine, \<open>'d\<close> the
  internal state a normal distribution object keeps between draws.
  \<^item> \<open>default_random_engine\<close> is the state of a default-constructed engine (the fixed
    default seed);
  \<^item> \<open>normal_reset\<close> is the internal state of a freshly constructed normal distribution;
  \<^item> \<open>normal_variate\<close> draws one standard normal variate, advancing both states;
  \<^item> \<open>discrete_variate ws\<close> draws one index from the discrete distribution built from
    the weights \<open>ws\<close>, advancing the engine.
\<close>

record ('g, 'd) random_lib =
  default_random_engine :: 'g
  normal_reset :: 'd
  normal_variate :: "'d \<Rightarrow> 'g \<Rightarrow> real \<times> 'd \<times> 'g"
  discrete_variate :: "real list \<Rightarrow> 'g \<Rightarrow> int \<times> 'g"

record 'd normal_distribution =
  mean :: real
  stddev :: real
  saved :: 'd

definition normal_distribution_new ::
  "('g, 'd) random_lib \<Rightarrow> real \<Rightarrow> real \<Rightarrow> 'd normal_distribution" where
  "normal_distribution_new L m sd = \<lparr>mean = m, stddev = sd, saved = normal_reset L\<rparr>"

text \<open>\<open>dist(randGen)\<close>: a standard normal variate scaled by the standard deviation and
  shifted by the mean, as the library implementations compute it.\<close>

definition normal_draw ::
  "('g, 'd) random_lib \<Rightarrow> 'd normal_distribution \<Rightarrow> 'g \<Rightarrow> real \<times> 'd normal_distribution \<times> 'g" where
  "normal_draw L d g =
     (case normal_variate L (saved d) g of
        (z, sv, g') \<Rightarrow> (z * stddev d + mean d, d\<lparr>saved := sv\<rparr>, g'))"

section \<open>ParticleFilter::init\<close>

text \<open>Modelled from the spec: the constructor of \<open>ParticleFilter\<close> is declared in
  particle\_filter.h, which is not among the sources; the filter starts in the state
  Uninitialized with an empty population.\<close>

definition new_filter :: ParticleFilter where
  "new_filter = \<lparr>num_particles = 0, is_initialized = False, particles = []\<rparr>"

text \<open>One iteration of the loop of \<open>init\<close> (lines 43--54): three draws, in the order x, y,
  theta, then \<open>push_back\<close>. The vectors of a default-constructed \<open>Particle\<close> are empty.\<close>

definition init_step ::
  "('g, 'd) random_lib \<Rightarrow> nat \<Rightarrow>
   Particle list \<times> 'd normal_distribution \<times> 'd normal_distribution \<times> 'd normal_distribution \<times> 'g \<Rightarrow>
   Particle list \<times> 'd normal_distribution \<times> 'd normal_distribution \<times> 'd normal_distribution \<times> 'g" where
  "init_step L n st =
     (case st of (ps, dist_x, dist_y, dist_theta, randGen) \<Rightarrow>
      case normal_draw L dist_x randGen of (vx, dist_x', g1) \<Rightarrow>
      case normal_draw L dist_y g1 of (vy, dist_y', g2) \<Rightarrow>
      case normal_draw L dist_theta g2 of (vt, dist_theta', g3) \<Rightarrow>
        (ps @ [\<lparr>id_p = int n, x_p = vx, y_p = vy, theta = vt, weight = 1,
                associations = [], sense_x = [], sense_y = []\<rparr>],
         dist_x', dist_y', dist_theta', g3))"

definition init ::
  "('g, 'd) random_lib \<Rightarrow> real \<Rightarrow> real \<Rightarrow> real \<Rightarrow> real \<times> real \<times> real \<Rightarrow>
   ParticleFilter \<Rightarrow> ParticleFilter" where
  "init L x y th std s =
     (case std of (std0, std1, std2) \<Rightarrow>
      let num = 100;
          randGen = default_random_engine L;
          dist_x = normal_distribution_new L x std0;
          dist_y = normal_distribution_new L y std1;
          dist_theta = normal_distribution_new L th std2;
          ps = fst (fold (init_step L) [0..<nat num]
                      (particles s, dist_x, dist_y, dist_theta, randGen))
      in s\<lparr>num_particles := num, particles := ps, is_initialized := True\<rparr>)"

section \<open>ParticleFilter::prediction\<close>

text \<open>One iteration of the loop of \<open>prediction\<close> (lines 75--89). Each of the three
  statements of a branch reads the particle as the statements before it left it, and makes
  one draw. \<open>abs\<close> is the floating-point overload that \<open>math.h\<close> declares.\<close>

definition prediction_step ::
  "('g, 'd) random_lib \<Rightarrow> real \<Rightarrow> real \<Rightarrow> real \<Rightarrow> nat \<Rightarrow>
   Particle list \<times> 'd normal_distribution \<times> 'd normal_distribution \<times> 'd normal_distribution \<times> 'g \<Rightarrow>
   Particle list \<times> 'd normal_distribution \<times> 'd normal_distribution \<times> 'd normal_distribution \<times> 'g" where
  "prediction_step L delta_t velocity yaw_rate n st =
     (case st of (ps, dist_x, dist_y, dist_theta, randGen) \<Rightarrow>
      if \<bar>yaw_rate\<bar> > 0.0001 then
        case normal_draw L dist_x randGen of (nx, dist_x', g1) \<Rightarrow>
        let ps1 = ps[n := (ps ! n)\<lparr>x_p := x_p (ps ! n) +
                     (velocity / yaw_rate *
                        (sin (theta (ps ! n) + yaw_rate * delta_t) - sin (theta (ps ! n))) + nx)\<rparr>]
        in
        case normal_draw L dist_y g1 of (ny, dist_y', g2) \<Rightarrow>
        let ps2 = ps1[n := (ps1 ! n)\<lparr>y_p := y_p (ps1 ! n) +
                     (velocity / yaw_rate *
                        (- cos (theta (ps1 ! n) + yaw_rate * delta_t) + cos (theta (ps1 ! n))) + ny)\<rparr>]
        in
        case normal_draw L dist_theta g2 of (nt, dist_theta', g3) \<Rightarrow>
        let ps3 = ps2[n := (ps2 ! n)\<lparr>theta := theta (ps2 ! n) + (yaw_rate * delta_t + nt)\<rparr>]
        in (ps3, dist_x', dist_y', dist_theta', g3)
      else
        case normal_draw L dist_x randGen of (nx, dist_x', g1) \<Rightarrow>
        let ps1 = ps[n := (ps ! n)\<lparr>x_p := x_p (ps ! n) +
                     (velocity * cos (theta (ps ! n)) * delta_t + nx)\<rparr>]
        in
        case normal_draw L dist_y g1 of (ny, dist_y', g2) \<Rightarrow>
        let ps2 = ps1[n := (ps1 ! n)\<lparr>y_p := y_p (ps1 ! n) +
                     (velocity * sin (theta (ps1 ! n)) * delta_t + ny)\<rparr>]
        in
        case normal_draw L dist_theta g2 of (nt, dist_theta', g3) \<Rightarrow>
        let ps3 = ps2[n := (ps2 ! n)\<lparr>theta := theta (ps2 ! n) + (yaw_rate * delta_t + nt)\<rparr>]
        in (ps3, dist_x', dist_y', dist_theta', g3))"

text \<open>The loop indexes \<open>particles[n]\<close> for every \<open>n < num_particles\<close>: with fewer
  particles than that, the access is out of bounds.\<close>

definition prediction ::
  "('g, 'd) random_lib \<Rightarrow> real \<Rightarrow> real \<times> real \<times> real \<Rightarrow> real \<Rightarrow> real \<Rightarrow>
   ParticleFilter \<Rightarrow> error + ParticleFilter" where
  "prediction L delta_t std_pos velocity yaw_rate s =
     (case std_pos of (std0, std1, std2) \<Rightarrow>
      if int (length (particles s)) < num_particles s then Inl OutOfRange
      else
        let randGen = default_random_engine L;
            dist_x = normal_distribution_new L 0 std0;
            dist_y = normal_distribution_new L 0 std1;
            dist_theta = normal_distribution_new L 0 std2;
            ps = fst (fold (prediction_step L delta_t velocity yaw_rate)
                        [0..<nat (num_particles s)]
                        (particles s, dist_x, dist_y, dist_theta, randGen))
        in Inr (s\<lparr>particles := ps\<rparr>))"

section \<open>Helper functions\<close>

text \<open>Modelled from the spec: \<open>dist\<close> is defined in helper\_functions.h, which is not
  among the sources; section 4.1 of the specification describes it as the Euclidean
  distance between two 2-D points. (The name carries a suffix: \<open>dist\<close> is a constant of
  HOL.)\<close>

definition dist_xy :: "real \<Rightarrow> real \<Rightarrow> real \<Rightarrow> real \<Rightarrow> real" where
  "dist_xy x1 y1 x2 y2 = sqrt ((x2 - x1)\<^sup>2 + (y2 - y1)\<^sup>2)"

text \<open>Modelled from the spec: \<open>multiv_prob\<close> is defined in helper\_functions.h, which is
  not among the sources; section 4.1 of the specification gives the density of the
  axis-aligned bivariate normal distribution.\<close>

definition multiv_prob :: "real \<Rightarrow> real \<Rightarrow> real \<Rightarrow> real \<Rightarrow> real \<Rightarrow> real \<Rightarrow> real" where
  "multiv_prob sig_x sig_y x_obs y_obs mu_x mu_y =
     exp (- ((x_obs - mu_x)\<^sup>2 / (2 * sig_x\<^sup>2) + (y_obs - mu_y)\<^sup>2 / (2 * sig_y\<^sup>2)))
       / (2 * pi * sig_x * sig_y)"

section \<open>ParticleFilter::dataAssociation\<close>

text \<open>The body of the inner loop (lines 108--113), on the pair \<open>(minDist, bestFit)\<close>.\<close>

definition nearest_step ::
  "LandmarkObs \<Rightarrow> LandmarkObs \<Rightarrow> real \<times> LandmarkObs \<Rightarrow> real \<times> LandmarkObs" where
  "nearest_step obs pred st =
     (case st of (minDist, bestFit) \<Rightarrow>
      let d = dist_xy (x_o pred) (y_o pred) (x_o obs) (y_o obs)
      in if d < minDist then (d, pred) else (minDist, bestFit))"

text \<open>\<open>LandmarkObs bestFit;\<close> is declared without an initialiser in the body of the outer
  loop, so in every iteration its fields hold whatever the memory held. That content is
  the parameter \<open>unset\<close>, a function of the iteration. \<open>predicted\<close> is passed by value: the
  caller's vector cannot change, and the model returns the observations only.\<close>

definition dataAssociation ::
  "(nat \<Rightarrow> LandmarkObs) \<Rightarrow> LandmarkObs list \<Rightarrow> LandmarkObs list \<Rightarrow> LandmarkObs list" where
  "dataAssociation unset predicted observations =
     map (\<lambda>k.
            let obs = observations ! k;
                minDist = 99 * 10 ^ 49;
                bestFit = snd (fold (nearest_step obs) predicted (minDist, unset k))
            in obs\<lparr>id_o := id_o bestFit\<rparr>)
         [0..<length observations]"

section \<open>ParticleFilter::CalculateParticleWeight\<close>

text \<open>The search loop with its \<open>break\<close> (lines 134--143): the first entry whose id is
  \<open>lmId\<close>, and the uninitialised \<open>pred_LM_match\<close> when there is none. The content of that
  local in iteration \<open>n\<close> is \<open>unset n\<close>.\<close>

fun find_match :: "int \<Rightarrow> LandmarkObs list \<Rightarrow> LandmarkObs \<Rightarrow> LandmarkObs" where
  "find_match lmId [] pred_LM_match = pred_LM_match"
| "find_match lmId (pred_LM # rest) pred_LM_match =
     (if lmId = id_o pred_LM then pred_LM else find_match lmId rest pred_LM_match)"

definition weight_step ::
  "(nat \<Rightarrow> LandmarkObs) \<Rightarrow> real \<times> real \<Rightarrow> LandmarkObs list \<Rightarrow> Particle \<Rightarrow> nat \<Rightarrow> real \<Rightarrow> real" where
  "weight_step unset std_landmark predictedLandMarks particle n w =
     (let lmId = associations particle ! n;
          pred_LM_match = find_match lmId predictedLandMarks (unset n)
      in w * multiv_prob (fst std_landmark) (snd std_landmark)
                 (sense_x particle ! n) (sense_y particle ! n)
                 (x_o pred_LM_match) (y_o pred_LM_match))"

text \<open>The loop runs over the indices of \<open>associations\<close> and reads \<open>sense_x[n]\<close> and
  \<open>sense_y[n]\<close>: a shorter coordinate vector is read out of bounds.\<close>

definition CalculateParticleWeight ::
  "(nat \<Rightarrow> LandmarkObs) \<Rightarrow> Particle \<Rightarrow> real \<times> real \<Rightarrow> LandmarkObs list \<Rightarrow> error + Particle" where
  "CalculateParticleWeight unset particle std_landmark predictedLandMarks =
     (if length (sense_x particle) < length (associations particle) \<or>
         length (sense_y particle) < length (associations particle)
      then Inl OutOfRange
      else Inr (particle\<lparr>weight :=
             fold (weight_step unset std_landmark predictedLandMarks particle)
               [0..<length (associations particle)] 1\<rparr>))"

section \<open>ParticleFilter::updateWeights\<close>

text \<open>Lines 182--185: one observation in map coordinates, as seen from a particle.\<close>

definition to_map_coordinates :: "Particle \<Rightarrow> LandmarkObs \<Rightarrow> LandmarkObs" where
  "to_map_coordinates p ob =
     \<lparr>id_o = id_o ob,
      x_o = x_p p + cos (theta p) * x_o ob - sin (theta p) * y_o ob,
      y_o = y_p p + sin (theta p) * x_o ob + cos (theta p) * y_o ob\<rparr>"

text \<open>The loop of lines 180--187.\<close>

definition observations_in_map ::
  "Particle \<Rightarrow> LandmarkObs list \<Rightarrow> LandmarkObs list" where
  "observations_in_map p observations =
     fold (\<lambda>m observations_mapCoordinates.
             observations_mapCoordinates @ [to_map_coordinates p (observations ! m)])
          [0..<length observations] []"

text \<open>The body of the loop of lines 190--202.\<close>

definition in_range_step ::
  "real \<Rightarrow> Particle \<Rightarrow> single_landmark_s \<Rightarrow> LandmarkObs list \<Rightarrow> LandmarkObs list" where
  "in_range_step sensor_range p landmark predictedLMs =
     (let lm = \<lparr>id_o = id_i landmark, x_o = x_f landmark, y_o = y_f landmark\<rparr>;
          d = dist_xy (x_o lm) (y_o lm) (x_p p) (y_p p)
      in if d < sensor_range then predictedLMs @ [lm] else predictedLMs)"

definition landmarks_in_range :: "real \<Rightarrow> Map_s \<Rightarrow> Particle \<Rightarrow> LandmarkObs list" where
  "landmarks_in_range sensor_range map_landmarks p =
     fold (in_range_step sensor_range p) (landmark_list map_landmarks) []"

text \<open>Lines 208--216: the particle's vectors are cleared and refilled.\<close>

definition copy_step :: "LandmarkObs \<Rightarrow> Particle \<Rightarrow> Particle" where
  "copy_step obs p =
     p\<lparr>sense_x := sense_x p @ [x_o obs],
       sense_y := sense_y p @ [y_o obs],
       associations := associations p @ [id_o obs]\<rparr>"

text \<open>The body of the loop over the particles (lines 175--218). \<open>unset_fit\<close> and
  \<open>unset_match\<close> are the contents of the uninitialised locals \<open>bestFit\<close> and
  \<open>pred_LM_match\<close> while this particle is processed.\<close>

definition update_particle ::
  "(nat \<Rightarrow> LandmarkObs) \<Rightarrow> (nat \<Rightarrow> LandmarkObs) \<Rightarrow> real \<Rightarrow> real \<times> real \<Rightarrow> LandmarkObs list \<Rightarrow> Map_s \<Rightarrow>
   Particle \<Rightarrow> error + Particle" where
  "update_particle unset_fit unset_match sensor_range std_landmark observations map_landmarks p =
     (let observations_mapCoordinates = observations_in_map p observations;
          predictedLMs = landmarks_in_range sensor_range map_landmarks p;
          associated = dataAssociation unset_fit predictedLMs observations_mapCoordinates;
          cleared = p\<lparr>sense_x := [], sense_y := [], associations := []\<rparr>;
          filled = fold copy_step associated cleared
      in CalculateParticleWeight unset_match filled std_landmark predictedLMs)"

text \<open>One iteration of the loop over the particles. \<open>unset_fit n k\<close> and
  \<open>unset_match n k\<close> are the contents of the two uninitialised locals in the iteration
  \<open>k\<close> of their loops while particle \<open>n\<close> is processed.\<close>

definition score_step ::
  "(nat \<Rightarrow> nat \<Rightarrow> LandmarkObs) \<Rightarrow> (nat \<Rightarrow> nat \<Rightarrow> LandmarkObs) \<Rightarrow> real \<Rightarrow> real \<times> real \<Rightarrow> LandmarkObs list \<Rightarrow> Map_s \<Rightarrow>
   nat \<Rightarrow> error + Particle list \<Rightarrow> error + Particle list" where
  "score_step unset_fit unset_match sensor_range std_landmark observations map_landmarks n r =
     (case r of
        Inl e \<Rightarrow> Inl e
      | Inr ps \<Rightarrow>
          (case update_particle (unset_fit n) (unset_match n) sensor_range std_landmark
                  observations map_landmarks (ps ! n) of
             Inl e \<Rightarrow> Inl e
           | Inr p' \<Rightarrow> Inr (ps[n := p'])))"

text \<open>Lines 173--219: the population after every particle is scored, before the weights
  are normalised.\<close>

definition score_particles ::
  "(nat \<Rightarrow> nat \<Rightarrow> LandmarkObs) \<Rightarrow> (nat \<Rightarrow> nat \<Rightarrow> LandmarkObs) \<Rightarrow> real \<Rightarrow> real \<times> real \<Rightarrow> LandmarkObs list \<Rightarrow> Map_s \<Rightarrow>
   ParticleFilter \<Rightarrow> error + Particle list" where
  "score_particles unset_fit unset_match sensor_range std_landmark observations map_landmarks s =
     (if int (length (particles s)) < num_particles s then Inl OutOfRange
      else fold (score_step unset_fit unset_match sensor_range std_landmark
                   observations map_landmarks)
             [0..<nat (num_particles s)] (Inr (particles s)))"

text \<open>Lines 221--233, on a population that has at least \<open>N\<close> particles.\<close>

definition weight_sum :: "Particle list \<Rightarrow> nat \<Rightarrow> real" where
  "weight_sum ps N = fold (\<lambda>n sum. sum + weight (ps ! n)) [0..<N] 0"

definition normalize_weights :: "Particle list \<Rightarrow> nat \<Rightarrow> Particle list" where
  "normalize_weights ps N =
     (let sum = weight_sum ps N
      in if sum > 1 / 100000
         then fold (\<lambda>n qs. qs[n := (qs ! n)\<lparr>weight := weight (qs ! n) / sum\<rparr>]) [0..<N] ps
         else ps)"

definition updateWeights ::
  "(nat \<Rightarrow> nat \<Rightarrow> LandmarkObs) \<Rightarrow> (nat \<Rightarrow> nat \<Rightarrow> LandmarkObs) \<Rightarrow> real \<Rightarrow> real \<times> real \<Rightarrow> LandmarkObs list \<Rightarrow> Map_s \<Rightarrow>
   ParticleFilter \<Rightarrow> error + ParticleFilter" where
  "updateWeights unset_fit unset_match sensor_range std_landmark observations map_landmarks s =
     (case score_particles unset_fit unset_match sensor_range std_landmark
             observations map_landmarks s of
        Inl e \<Rightarrow> Inl e
      | Inr ps \<Rightarrow> Inr (s\<lparr>particles := normalize_weights ps (nat (num_particles s))\<rparr>))"

section \<open>ParticleFilter::resample\<close>

text \<open>One iteration of the loop of lines 256--260: an index is drawn and the particle at
  that index is copied. An index outside the vector is an out-of-bounds read.\<close>

definition resample_step ::
  "('g, 'd) random_lib \<Rightarrow> real list \<Rightarrow> Particle list \<Rightarrow> nat \<Rightarrow>
   error + Particle list \<times> 'g \<Rightarrow> error + Particle list \<times> 'g" where
  "resample_step L weights ps n r =
     (case r of
        Inl e \<Rightarrow> Inl e
      | Inr (newParticles, gen) \<Rightarrow>
          (case discrete_variate L weights gen of
             (pIdx, gen') \<Rightarrow>
               if 0 \<le> pIdx \<and> pIdx < int (length ps)
               then Inr (newParticles @ [ps ! nat pIdx], gen')
               else Inl OutOfRange))"

definition collect_weights :: "Particle list \<Rightarrow> nat \<Rightarrow> real list" where
  "collect_weights ps N = fold (\<lambda>n weights. weights @ [weight (ps ! n)]) [0..<N] []"

definition resample :: "('g, 'd) random_lib \<Rightarrow> ParticleFilter \<Rightarrow> error + ParticleFilter" where
  "resample L s =
     (if int (length (particles s)) < num_particles s then Inl OutOfRange
      else
        let gen = default_random_engine L;
            weights = collect_weights (particles s) (nat (num_particles s))
        in case fold (resample_step L weights (particles s)) [0..<nat (num_particles s)]
                  (Inr ([], gen)) of
             Inl e \<Rightarrow> Inl e
           | Inr (newParticles, gen') \<Rightarrow> Inr (s\<lparr>particles := newParticles\<rparr>))"

section \<open>Auxiliary definitions\<close>

text \<open>What the body of the loop of \<open>updateWeights\<close> makes of one particle: the observations
  in map coordinates, associated with the landmarks in range, are copied into the particle,
  and the weight is the product of \<open>CalculateParticleWeight\<close>. (The result of
  \<open>update_particle\<close>, shown below to be always returned.)\<close>

definition scored ::
  "(nat \<Rightarrow> LandmarkObs) \<Rightarrow> (nat \<Rightarrow> LandmarkObs) \<Rightarrow> real \<Rightarrow> real \<times> real \<Rightarrow> LandmarkObs list \<Rightarrow> Map_s \<Rightarrow>
   Particle \<Rightarrow> Particle" where
  "scored uf um sr std obs mp p =
     (let assoc = dataAssociation uf (landmarks_in_range sr mp p) (observations_in_map p obs);
          q = p\<lparr>sense_x := map x_o assoc, sense_y := map y_o assoc,
                associations := map id_o assoc\<rparr>
      in q\<lparr>weight := fold (weight_step um std (landmarks_in_range sr mp p) q)
                        [0..<length assoc] 1\<rparr>)"

text \<open>The transform of the specification, in its words: the rotation by the matrix
  \<open>[[cos th, - sin th], [sin th, cos th]]\<close>, and the translation by \<open>t\<close>.\<close>

definition spec_rotate :: "real \<Rightarrow> real \<times> real \<Rightarrow> real \<times> real" where
  "spec_rotate th v = (cos th * fst v + (- sin th) * snd v, sin th * fst v + cos th * snd v)"

definition spec_translate :: "real \<times> real \<Rightarrow> real \<times> real \<Rightarrow> real \<times> real" where
  "spec_translate t v = (fst v + fst t, snd v + snd t)"

text \<open>The three draws that one iteration of the loops of \<open>init\<close> and \<open>prediction\<close>
  makes, in the order x, y, theta, on the three distribution objects and the engine; and
  the sequence of the triples drawn by \<open>k\<close> iterations.\<close>

definition draw3 ::
  "('g, 'd) random_lib \<Rightarrow>
   'd normal_distribution \<times> 'd normal_distribution \<times> 'd normal_distribution \<times> 'g \<Rightarrow>
   (real \<times> real \<times> real) \<times>
   ('d normal_distribution \<times> 'd normal_distribution \<times> 'd normal_distribution \<times> 'g)" where
  "draw3 L r =
     (case r of (dist_x, dist_y, dist_theta, randGen) \<Rightarrow>
      case normal_draw L dist_x randGen of (nx, dist_x', g1) \<Rightarrow>
      case normal_draw L dist_y g1 of (ny, dist_y', g2) \<Rightarrow>
      case normal_draw L dist_theta g2 of (nt, dist_theta', g3) \<Rightarrow>
        ((nx, ny, nt), (dist_x', dist_y', dist_theta', g3)))"

primrec draws ::
  "('g, 'd) random_lib \<Rightarrow> nat \<Rightarrow>
   'd normal_distribution \<times> 'd normal_distribution \<times> 'd normal_distribution \<times> 'g \<Rightarrow>
   (real \<times> real \<times> real) list" where
  "draws L 0 r = []"
| "draws L (Suc k) r = fst (draw3 L r) # draws L k (snd (draw3 L r))"

text \<open>The three distribution objects and the engine as a call of \<open>init\<close> or
  \<open>prediction\<close> constructs them, from the means and the standard deviations: the engine is
  the default-constructed one.\<close>

definition fresh ::
  "('g, 'd) random_lib \<Rightarrow> real \<times> real \<times> real \<Rightarrow> real \<times> real \<times> real \<Rightarrow>
   'd normal_distribution \<times> 'd normal_distribution \<times> 'd normal_distribution \<times> 'g" where
  "fresh L means devs =
     (case means of (m0, m1, m2) \<Rightarrow>
      case devs of (d0, d1, d2) \<Rightarrow>
        (normal_distribution_new L m0 d0, normal_distribution_new L m1 d1,
         normal_distribution_new L m2 d2, default_random_engine L))"

text \<open>The particle that iteration \<open>n\<close> of the loop of \<open>init\<close> makes of its three draws.\<close>

definition sampled :: "nat \<Rightarrow> real \<times> real \<times> real \<Rightarrow> Particle" where
  "sampled n v =
     (case v of (vx, vy, vt) \<Rightarrow>
        \<lparr>id_p = int n, x_p = vx, y_p = vy, theta = vt, weight = 1,
         associations = [], sense_x = [], sense_y = []\<rparr>)"

text \<open>What one iteration of the loop of \<open>prediction\<close> makes of a particle, given the
  three noise values it draws.\<close>

definition moved :: "real \<Rightarrow> real \<Rightarrow> real \<Rightarrow> real \<times> real \<times> real \<Rightarrow> Particle \<Rightarrow> Particle" where
  "moved delta_t velocity yaw_rate noise p =
     (case noise of (nx, ny, nt) \<Rightarrow>
      if \<bar>yaw_rate\<bar> > 0.0001 then
        p\<lparr>x_p := x_p p + (velocity / yaw_rate * (sin (theta p + yaw_rate * delta_t) - sin (theta p)) + nx),
          y_p := y_p p + (velocity / yaw_rate * (- cos (theta p + yaw_rate * delta_t) + cos (theta p)) + ny),
          theta := theta p + (yaw_rate * delta_t + nt)\<rparr>
      else
        p\<lparr>x_p := x_p p + (velocity * cos (theta p) * delta_t + nx),
          y_p := y_p p + (velocity * sin (theta p) * delta_t + ny),
          theta := theta p + (yaw_rate * delta_t + nt)\<rparr>)"

text \<open>The indices that \<open>k\<close> successive draws from the discrete distribution over the
  weights \<open>ws\<close> give.\<close>

primrec index_draws :: "('g, 'd) random_lib \<Rightarrow> real list \<Rightarrow> nat \<Rightarrow> 'g \<Rightarrow> int list" where
  "index_draws L ws 0 g = []"
| "index_draws L ws (Suc k) g =
     fst (discrete_variate L ws g) # index_draws L ws k (snd (discrete_variate L ws g))"

section \<open>A concrete library instance\<close>

text \<open>A small instance of the library interface, used to run the model on concrete inputs:
  a Lehmer generator with the constants of \<open>minstd_rand0\<close> and seed 1, a centred uniform
  value in place of the normal variate (two are produced at a time and the second is kept
  for the next draw), and index selection by walking the cumulative weights.\<close>

definition minstd :: "nat \<Rightarrow> nat" where
  "minstd g = 16807 * g mod 2147483647"

fun pick :: "real \<Rightarrow> real list \<Rightarrow> nat" where
  "pick u [] = 0"
| "pick u (w # ws) = (if u < w then 0 else Suc (pick (u - w) ws))"

definition unit_of :: "nat \<Rightarrow> real" where
  "unit_of g = real (g mod 2147483647) / 2147483647"

definition lcg_lib :: "(nat, real option) random_lib" where
  "lcg_lib =
     \<lparr>default_random_engine = 1,
      normal_reset = None,
      normal_variate = (\<lambda>sv g. case sv of
          Some z \<Rightarrow> (z, None, g)
        | None \<Rightarrow> (unit_of (minstd g) - 1 / 2,
                   Some (unit_of (minstd (minstd g)) - 1 / 2), minstd (minstd g))),
      discrete_variate = (\<lambda>ws g. (int (pick (sum_list ws * unit_of (minstd g)) ws), minstd g))\<rparr>"

section \<open>Properties of init\<close>

lemma init_step_fold_fst:
  "map id_p (fst (fold (init_step L) [i..<i + k] (ps, dx, dy, dt, g)))
     = map id_p ps @ map int [i..<i + k] \<and>
   map weight (fst (fold (init_step L) [i..<i + k] (ps, dx, dy, dt, g)))
     = map weight ps @ replicate k 1"
proof (induction k arbitrary: ps dx dy dt g)
  case 0
  show ?case by simp
next
  case (Suc k)
  obtain ps' dx' dy' dt' g' where
    st: "fold (init_step L) [i..<i + k] (ps, dx, dy, dt, g) = (ps', dx', dy', dt', g')"
    by (metis prod_cases5)
  have ih: "map id_p ps' = map id_p ps @ map int [i..<i + k]"
           "map weight ps' = map weight ps @ replicate k 1"
    using Suc.IH [of ps dx dy dt g] st by simp_all
  have "fst (fold (init_step L) [i..<i + Suc k] (ps, dx, dy, dt, g))
          = fst (init_step L (i + k) (ps', dx', dy', dt', g'))"
    using st by simp
  moreover have "map id_p (fst (init_step L (i + k) (ps', dx', dy', dt', g')))
          = map id_p ps' @ [int (i + k)]"
    by (simp add: init_step_def split: prod.splits)
  moreover have "map weight (fst (init_step L (i + k) (ps', dx', dy', dt', g')))
          = map weight ps' @ [1]"
    by (simp add: init_step_def split: prod.splits)
  ultimately show ?case
    using ih by (simp add: replicate_append_same)
qed

lemma init_length:
  "length (particles (init L x y th std s)) = length (particles s) + 100"
proof -
  obtain std0 std1 std2 where std: "std = (std0, std1, std2)"
    by (cases std) auto
  have "length (map weight (fst (fold (init_step L) [0..<0 + 100]
      (particles s, normal_distribution_new L x std0, normal_distribution_new L y std1,
       normal_distribution_new L th std2, default_random_engine L))))
      = length (map weight (particles s) @ replicate 100 (1::real))"
    using init_step_fold_fst [of L 0 100 "particles s"] by simp
  then show ?thesis
    by (simp add: init_def std Let_def)
qed

text \<open>
  C1 (as amended). \<open>init\<close> takes no particle count: it fixes the count at 100. Called on a
  filter whose population is empty, it leaves exactly 100 particles, each of weight 1.0,
  with the identities 0..99 in this order (hence distinct), records 100 as the particle
  count and sets \<open>is_initialized\<close>.
\<close>

theorem init_population:
  "particles s = [] \<Longrightarrow>
   length (particles (init L x y th std s)) = 100 \<and>
   map weight (particles (init L x y th std s)) = replicate 100 1 \<and>
   map id_p (particles (init L x y th std s)) = map int [0..<100] \<and>
   distinct (map id_p (particles (init L x y th std s))) \<and>
   num_particles (init L x y th std s) = 100 \<and>
   is_initialized (init L x y th std s)"
proof -
  assume e: "particles s = []"
  obtain std0 std1 std2 where std: "std = (std0, std1, std2)"
    by (cases std) auto
  define ps where "ps = fst (fold (init_step L) [0..<0 + 100]
      (particles s, normal_distribution_new L x std0, normal_distribution_new L y std1,
       normal_distribution_new L th std2, default_random_engine L))"
  have p: "particles (init L x y th std s) = ps"
    by (simp add: init_def std ps_def Let_def)
  have ids: "map id_p ps = map int [0..<100]" and ws: "map weight ps = replicate 100 1"
    using init_step_fold_fst [of L 0 100 "particles s"] e
    unfolding ps_def by simp_all
  have len: "length ps = 100"
    using arg_cong [OF ws, of length] by simp
  have "distinct (map int [0..<100])"
    by (simp add: distinct_map inj_on_def)
  then have d: "distinct (map id_p ps)"
    using ids by simp
  have n: "num_particles (init L x y th std s) = 100"
          "is_initialized (init L x y th std s)"
    by (simp_all add: init_def std Let_def)
  show ?thesis
    using p ids ws len d n by simp
qed

theorem init_population_witness:
  "particles new_filter = [] \<and>
   length (particles (init lcg_lib 4 5 0 (2, 2, 1 / 20) new_filter)) = 100 \<and>
   map id_p (particles (init lcg_lib 4 5 0 (2, 2, 1 / 20) new_filter)) = map int [0..<100] \<and>
   is_initialized (init lcg_lib 4 5 0 (2, 2, 1 / 20) new_filter)"
  using init_population [of new_filter lcg_lib 4 5 0 "(2, 2, 1 / 20)"]
  by (simp add: new_filter_def)

text \<open>
  C1 as stated fails: no call of \<open>init\<close> yields a population of 5 particles. Even when
  the count field holds 5 beforehand, \<open>init\<close> overwrites it and creates 100 particles.
\<close>

theorem init_count_counterexample:
  "length (particles (init lcg_lib 4 5 0 (2, 2, 1 / 20) (new_filter\<lparr>num_particles := 5\<rparr>))) \<noteq> 5 \<and>
   num_particles (init lcg_lib 4 5 0 (2, 2, 1 / 20) (new_filter\<lparr>num_particles := 5\<rparr>)) \<noteq> 5"
  by (simp add: init_length) (simp add: init_def Let_def)

section \<open>Properties of dataAssociation\<close>

lemma nearest_step_pair:
  "nearest_step obs p (m0, b0) =
     (if dist_xy (x_o p) (y_o p) (x_o obs) (y_o obs) < m0
      then (dist_xy (x_o p) (y_o p) (x_o obs) (y_o obs), p) else (m0, b0))"
  by (simp add: nearest_step_def)

lemma nearest_fold:
  "fold (nearest_step obs) ps (m0, b0) = (m, b) \<Longrightarrow>
   m \<le> m0 \<and>
   (\<forall>p \<in> set ps. m \<le> dist_xy (x_o p) (y_o p) (x_o obs) (y_o obs)) \<and>
   (if m < m0
    then \<exists>j < length ps. b = ps ! j \<and> dist_xy (x_o (ps ! j)) (y_o (ps ! j)) (x_o obs) (y_o obs) = m \<and>
           (\<forall>i < j. m < dist_xy (x_o (ps ! i)) (y_o (ps ! i)) (x_o obs) (y_o obs))
    else b = b0)"
proof (induction ps arbitrary: m0 b0)
  case Nil
  then show ?case by simp
next
  case (Cons p ps)
  let ?D = "\<lambda>q. dist_xy (x_o q) (y_o q) (x_o obs) (y_o obs)"
  show ?case
  proof (cases "?D p < m0")
    case True
    then have f: "fold (nearest_step obs) ps (?D p, p) = (m, b)"
      using Cons.prems by (simp add: nearest_step_pair)
    note ih = Cons.IH [OF f]
    show ?thesis
    proof (cases "m < ?D p")
      case True
      with ih obtain j where j: "j < length ps" "b = ps ! j" "?D (ps ! j) = m"
        "\<forall>i < j. m < ?D (ps ! i)" by auto
      have "\<forall>i < Suc j. m < ?D ((p # ps) ! i)"
        using j(4) True by (auto simp: nth_Cons')
      with j(1-3) have "\<exists>j < length (p # ps). b = (p # ps) ! j \<and> ?D ((p # ps) ! j) = m \<and>
           (\<forall>i < j. m < ?D ((p # ps) ! i))"
        by (intro exI [of _ "Suc j"]) simp
      moreover have "m < m0" using True \<open>?D p < m0\<close> by simp
      ultimately show ?thesis using ih by auto
    next
      case False
      with ih have e: "m = ?D p" "b = p" by (auto split: if_splits)
      have "\<exists>j < length (p # ps). b = (p # ps) ! j \<and> ?D ((p # ps) ! j) = m \<and>
           (\<forall>i < j. m < ?D ((p # ps) ! i))"
        using e by (intro exI [of _ 0]) simp
      then show ?thesis using ih e \<open>?D p < m0\<close> by auto
    qed
  next
    case False
    then have f: "fold (nearest_step obs) ps (m0, b0) = (m, b)"
      using Cons.prems by (simp add: nearest_step_pair)
    note ih = Cons.IH [OF f]
    show ?thesis
    proof (cases "m < m0")
      case True
      with ih obtain j where j: "j < length ps" "b = ps ! j" "?D (ps ! j) = m"
        "\<forall>i < j. m < ?D (ps ! i)" by auto
      have "\<forall>i < Suc j. m < ?D ((p # ps) ! i)"
        using j(4) True False by (auto simp: nth_Cons')
      with j(1-3) have "\<exists>j < length (p # ps). b = (p # ps) ! j \<and> ?D ((p # ps) ! j) = m \<and>
           (\<forall>i < j. m < ?D ((p # ps) ! i))"
        by (intro exI [of _ "Suc j"]) simp
      then show ?thesis using ih True False by auto
    next
      case False
      then show ?thesis using ih \<open>\<not> ?D p < m0\<close> by auto
    qed
  qed
qed

text \<open>
  What the loops do whenever some predicted entry lies closer to an observation than
  9.9e50, the initial value of \<open>minDist\<close>: that observation receives the identity of the
  predicted entry that minimises the distance to it over the whole predicted set, and of
  the first such entry in scan order when several are equidistant at the minimum. Only the
  identity field of the observation changes, and the number of observations does not.
  (The predicted set is passed by value and is not part of the result.)
\<close>

lemma dataAssociation_nearest:
  assumes "k < length observations"
    and "\<exists>p \<in> set predicted.
           dist_xy (x_o p) (y_o p) (x_o (observations ! k)) (y_o (observations ! k)) < 99 * 10 ^ 49"
  shows "length (dataAssociation unset predicted observations) = length observations \<and>
    (\<exists>j < length predicted.
       (\<forall>i < length predicted.
          dist_xy (x_o (predicted ! j)) (y_o (predicted ! j))
                  (x_o (observations ! k)) (y_o (observations ! k))
          \<le> dist_xy (x_o (predicted ! i)) (y_o (predicted ! i))
                  (x_o (observations ! k)) (y_o (observations ! k))) \<and>
       (\<forall>i < j.
          dist_xy (x_o (predicted ! j)) (y_o (predicted ! j))
                  (x_o (observations ! k)) (y_o (observations ! k))
          < dist_xy (x_o (predicted ! i)) (y_o (predicted ! i))
                  (x_o (observations ! k)) (y_o (observations ! k))) \<and>
       dataAssociation unset predicted observations ! k
         = (observations ! k)\<lparr>id_o := id_o (predicted ! j)\<rparr>)"
proof -
  let ?obs = "observations ! k"
  let ?D = "\<lambda>q. dist_xy (x_o q) (y_o q) (x_o ?obs) (y_o ?obs)"
  obtain m b where f: "fold (nearest_step ?obs) predicted (99 * 10 ^ 49, unset k) = (m, b)"
    by (cases "fold (nearest_step ?obs) predicted (99 * 10 ^ 49, unset k)") auto
  note inv = nearest_fold [OF f]
  from assms(2) obtain p where p: "p \<in> set predicted" "?D p < 99 * 10 ^ 49" by blast
  from inv p have lt: "m < 99 * 10 ^ 49" by force
  with inv obtain j where j: "j < length predicted" "b = predicted ! j" "?D (predicted ! j) = m"
    "\<forall>i < j. m < ?D (predicted ! i)" by auto
  have low: "\<forall>i < length predicted. m \<le> ?D (predicted ! i)"
    using inv by simp
  have r: "dataAssociation unset predicted observations ! k = ?obs\<lparr>id_o := id_o (predicted ! j)\<rparr>"
    using assms(1) f j(2) by (simp add: dataAssociation_def)
  have "length (dataAssociation unset predicted observations) = length observations"
    by (simp add: dataAssociation_def)
  with r j low show ?thesis by auto
qed

lemma dataAssociation_nearest_witness:
  "(0::nat) < length [\<lparr>id_o = 0, x_o = 1, y_o = 0\<rparr>] \<and>
   dist_xy 0 0 1 0 < 99 * 10 ^ 49 \<and>
   dataAssociation (\<lambda>k. \<lparr>id_o = - 1, x_o = 0, y_o = 0\<rparr>)
     [\<lparr>id_o = 5, x_o = 4, y_o = 0\<rparr>, \<lparr>id_o = 1, x_o = 0, y_o = 0\<rparr>,
      \<lparr>id_o = 2, x_o = 2, y_o = 0\<rparr>]
     [\<lparr>id_o = 0, x_o = 1, y_o = 0\<rparr>]
   = [\<lparr>id_o = 1, x_o = 1, y_o = 0\<rparr>]"
proof -
  let ?obs = "[\<lparr>id_o = 0, x_o = 1, y_o = 0\<rparr>]"
  let ?pred = "[\<lparr>id_o = 5, x_o = 4, y_o = 0\<rparr>, \<lparr>id_o = 1, x_o = 0, y_o = 0\<rparr>,
      \<lparr>id_o = 2, x_o = 2, y_o = 0\<rparr>]"
  let ?u = "\<lambda>k::nat. \<lparr>id_o = - 1, x_o = 0, y_o = 0\<rparr>"
  have d: "dist_xy 4 0 1 0 = 3" "dist_xy 0 0 1 0 = 1" "dist_xy 2 0 1 0 = 1"
    by (simp_all add: dist_xy_def)
  have h1: "(0::nat) < length ?obs" by simp
  have h2: "\<exists>p \<in> set ?pred. dist_xy (x_o p) (y_o p) (x_o (?obs ! 0)) (y_o (?obs ! 0)) < 99 * 10 ^ 49"
    by (simp add: d)
  let ?D = "\<lambda>q. dist_xy (x_o q) (y_o q) (x_o (?obs ! 0)) (y_o (?obs ! 0))"
  from dataAssociation_nearest [OF h1 h2, of ?u]
  obtain j where j: "j < length ?pred"
    "\<forall>i < length ?pred. ?D (?pred ! j) \<le> ?D (?pred ! i)"
    "\<forall>i < j. ?D (?pred ! j) < ?D (?pred ! i)"
    "dataAssociation ?u ?pred ?obs ! 0 = (?obs ! 0)\<lparr>id_o := id_o (?pred ! j)\<rparr>"
    and len: "length (dataAssociation ?u ?pred ?obs) = length ?obs"
    by blast
  from j(1) consider "j = 0" | "j = 1" | "j = 2" by fastforce
  then have "j = 1"
  proof cases
    case 1
    then show ?thesis using j(2) [rule_format, of 1] by (simp add: d)
  next
    case 2
    then show ?thesis .
  next
    case 3
    then show ?thesis using j(3) [rule_format, of 1] by (simp add: d)
  qed
  with j(4) have "dataAssociation ?u ?pred ?obs ! 0 = \<lparr>id_o = 1, x_o = 1, y_o = 0\<rparr>"
    by simp
  with len have "dataAssociation ?u ?pred ?obs = [\<lparr>id_o = 1, x_o = 1, y_o = 0\<rparr>]"
    by (cases "dataAssociation ?u ?pred ?obs") auto
  then show ?thesis by (simp add: d)
qed

text \<open>
  C2 does not hold of the code. The predicted set holds one entry, with identity 7, at
  distance 1e51 from the observation. The entry is the nearest one, yet it is not below the
  finite initial value 9.9e50 of \<open>minDist\<close>, so \<open>bestFit\<close> is never assigned and the
  observation receives the identity found in the uninitialised \<open>bestFit\<close>, whatever it
  is, instead of 7.
\<close>

theorem dataAssociation_far_unset:
  "dataAssociation unset
     [\<lparr>id_o = 7, x_o = 10 ^ 51, y_o = 0\<rparr>] [\<lparr>id_o = 0, x_o = 0, y_o = 0\<rparr>]
   = [\<lparr>id_o = id_o (unset 0), x_o = 0, y_o = 0\<rparr>]"
  by (simp add: dataAssociation_def nearest_step_def dist_xy_def)

text \<open>
  C7 does not hold of the code. With an empty predicted set \<open>bestFit\<close> is never assigned,
  and the identity 5 of the observation is overwritten by the identity found in the
  uninitialised \<open>bestFit\<close>: no sentinel is stored. When the memory holds 42 there, the
  result is the one that a match with a landmark of identity 42 gives.
\<close>

theorem dataAssociation_empty_unset:
  "dataAssociation unset [] [\<lparr>id_o = 5, x_o = 1, y_o = 0\<rparr>]
     = [\<lparr>id_o = id_o (unset 0), x_o = 1, y_o = 0\<rparr>] \<and>
   dataAssociation (\<lambda>k. \<lparr>id_o = 42, x_o = 0, y_o = 0\<rparr>) [] [\<lparr>id_o = 5, x_o = 1, y_o = 0\<rparr>]
     = dataAssociation unset [\<lparr>id_o = 42, x_o = 1, y_o = 0\<rparr>] [\<lparr>id_o = 5, x_o = 1, y_o = 0\<rparr>]"
  by (simp add: dataAssociation_def nearest_step_def dist_xy_def)

section \<open>Properties of updateWeights\<close>

lemma fold_index_update:
  "k \<le> length ps \<Longrightarrow>
   fold (\<lambda>n qs. qs[n := f n (qs ! n)]) [0..<k] ps = map2 f [0..<k] (take k ps) @ drop k ps"
proof (induction k)
  case 0
  show ?case by simp
next
  case (Suc k)
  then have k: "k < length ps" by simp
  let ?done = "map2 f [0..<k] (take k ps)"
  have l: "length ?done = k" using k by simp
  have "fold (\<lambda>n qs. qs[n := f n (qs ! n)]) [0..<Suc k] ps
          = (?done @ drop k ps)[k := f k ((?done @ drop k ps) ! k)]"
    using Suc by simp
  also have "(?done @ drop k ps) ! k = ps ! k"
    using k l by (simp add: nth_append)
  also have "(?done @ drop k ps)[k := f k (ps ! k)] = ?done @ (drop k ps)[0 := f k (ps ! k)]"
    using l by (simp add: list_update_append)
  also have "(drop k ps)[0 := f k (ps ! k)] = f k (ps ! k) # drop (Suc k) ps"
    using k by (simp add: Cons_nth_drop_Suc [symmetric])
  also have "?done @ f k (ps ! k) # drop (Suc k) ps
          = map2 f [0..<Suc k] (take (Suc k) ps) @ drop (Suc k) ps"
    using k by (simp add: take_Suc_conv_app_nth)
  finally show ?case .
qed

lemma map2_ignore_index:
  "length xs = length ys \<Longrightarrow> map2 (\<lambda>n y. g y) xs ys = map g ys"
  by (induction xs ys rule: list_induct2) simp_all

lemma map2_index_nth:
  "n < k \<Longrightarrow> k \<le> length ps \<Longrightarrow> (map2 f [0..<k] (take k ps) @ drop k ps) ! n = f n (ps ! n)"
  by (simp add: nth_append)

lemma fold_index_collect:
  "k \<le> length xs \<Longrightarrow>
   fold (\<lambda>m acc. acc @ [f (xs ! m)]) [0..<k] [] = map f (take k xs)"
  by (induction k) (simp_all add: take_Suc_conv_app_nth)

lemma observations_in_map_eq:
  "observations_in_map p observations = map (to_map_coordinates p) observations"
  using fold_index_collect [of "length observations" observations "to_map_coordinates p"]
  by (simp add: observations_in_map_def)

lemma in_range_fold:
  "fold (in_range_step sensor_range p) ls acc =
     acc @ filter (\<lambda>lm. dist_xy (x_o lm) (y_o lm) (x_p p) (y_p p) < sensor_range)
             (map (\<lambda>landmark. \<lparr>id_o = id_i landmark, x_o = x_f landmark, y_o = y_f landmark\<rparr>) ls)"
proof (induction ls arbitrary: acc)
  case Nil
  show ?case by simp
next
  case (Cons l ls)
  have "in_range_step sensor_range p l acc =
      (if dist_xy (x_f l) (y_f l) (x_p p) (y_p p) < sensor_range
       then acc @ [\<lparr>id_o = id_i l, x_o = x_f l, y_o = y_f l\<rparr>] else acc)"
    by (simp add: in_range_step_def)
  then show ?case
    using Cons.IH by simp
qed

text \<open>
  C9. The candidate landmarks of a particle are exactly the landmarks of the map whose
  Euclidean distance to the position of the particle is strictly less than
  \<open>sensor_range\<close>, in the order of the map: a landmark at a distance equal to
  \<open>sensor_range\<close> is not among them.
\<close>

theorem landmarks_in_range_filter:
  "landmarks_in_range sensor_range map_landmarks p =
     filter (\<lambda>lm. sqrt ((x_p p - x_o lm)\<^sup>2 + (y_p p - y_o lm)\<^sup>2) < sensor_range)
       (map (\<lambda>landmark. \<lparr>id_o = id_i landmark, x_o = x_f landmark, y_o = y_f landmark\<rparr>)
          (landmark_list map_landmarks))"
  using in_range_fold [of sensor_range p "landmark_list map_landmarks" "[]"]
  by (simp add: landmarks_in_range_def dist_xy_def)

text \<open>Range 5 from the origin: the landmark at distance exactly 5 and the one at distance 6
  are left out, the two nearer ones are kept in map order.\<close>

lemma landmarks_in_range_boundary:
  "landmarks_in_range 5 \<lparr>landmark_list =
       [\<lparr>id_i = 1, x_f = 3, y_f = 4\<rparr>, \<lparr>id_i = 2, x_f = 6, y_f = 0\<rparr>,
        \<lparr>id_i = 3, x_f = 0, y_f = 4\<rparr>, \<lparr>id_i = 4, x_f = 3, y_f = 0\<rparr>]\<rparr>
     \<lparr>id_p = 0, x_p = 0, y_p = 0, theta = 0, weight = 1,
      associations = [], sense_x = [], sense_y = []\<rparr>
   = [\<lparr>id_o = 3, x_o = 0, y_o = 4\<rparr>, \<lparr>id_o = 4, x_o = 3, y_o = 0\<rparr>]"
proof -
  have "sqrt 25 = 5" "sqrt 36 = 6" "sqrt 16 = 4" "sqrt 9 = 3"
    using real_sqrt_abs [of 5] real_sqrt_abs [of 6] real_sqrt_abs [of 4] real_sqrt_abs [of 3]
    by simp_all
  then show ?thesis
    by (simp add: landmarks_in_range_def in_range_step_def dist_xy_def)
qed

lemma copy_fold:
  "fold copy_step obs q =
     q\<lparr>sense_x := sense_x q @ map x_o obs,
       sense_y := sense_y q @ map y_o obs,
       associations := associations q @ map id_o obs\<rparr>"
  by (induction obs arbitrary: q) (simp_all add: copy_step_def)

lemma map_index_nth:
  "map (\<lambda>k. f (xs ! k)) [0..<length xs] = map f xs"
  by (rule nth_equalityI) simp_all

lemma dataAssociation_coords:
  "map x_o (dataAssociation u pr obs) = map x_o obs"
  "map y_o (dataAssociation u pr obs) = map y_o obs"
  using map_index_nth [of x_o obs] map_index_nth [of y_o obs]
  by (simp_all add: dataAssociation_def Let_def comp_def)

lemma update_particle_scored:
  "update_particle uf um sr std obs mp p = Inr (scored uf um sr std obs mp p)"
  by (simp add: update_particle_def scored_def CalculateParticleWeight_def copy_fold Let_def)

lemma score_fold:
  "fold (score_step uf um sr std obs mp) ns (Inr ps)
     = Inr (fold (\<lambda>n qs. qs[n := scored (uf n) (um n) sr std obs mp (qs ! n)]) ns ps)"
  by (induction ns arbitrary: ps) (simp_all add: score_step_def update_particle_scored)

lemma score_particles_eq:
  "num_particles s \<le> int (length (particles s)) \<Longrightarrow>
   score_particles uf um sr std obs mp s =
     Inr (map2 (\<lambda>n. scored (uf n) (um n) sr std obs mp)
            [0..<nat (num_particles s)] (take (nat (num_particles s)) (particles s))
            @ drop (nat (num_particles s)) (particles s))"
  using fold_index_update
    [of "nat (num_particles s)" "particles s" "\<lambda>n. scored (uf n) (um n) sr std obs mp"]
  by (simp add: score_particles_def score_fold)

lemma weight_sum_eq:
  "k \<le> length ps \<Longrightarrow> weight_sum ps k = sum_list (map weight (take k ps))"
  unfolding weight_sum_def
  by (induction k) (simp_all add: take_Suc_conv_app_nth)

lemma normalize_weights_eq:
  "k \<le> length ps \<Longrightarrow>
   normalize_weights ps k =
     (if sum_list (map weight (take k ps)) > 1 / 100000
      then map (\<lambda>q. q\<lparr>weight := weight q / sum_list (map weight (take k ps))\<rparr>) (take k ps)
             @ drop k ps
      else ps)"
  using fold_index_update
    [of k ps "\<lambda>n q. q\<lparr>weight := weight q / sum_list (map weight (take k ps))\<rparr>"]
    map2_ignore_index [of "[0..<k]" "take k ps"
      "\<lambda>q. q\<lparr>weight := weight q / sum_list (map weight (take k ps))\<rparr>"]
  by (simp add: normalize_weights_def weight_sum_eq Let_def)

lemma scored_fields:
  "x_p (scored uf um sr std obs mp p) = x_p p"
  "y_p (scored uf um sr std obs mp p) = y_p p"
  "theta (scored uf um sr std obs mp p) = theta p"
  "id_p (scored uf um sr std obs mp p) = id_p p"
  "sense_x (scored uf um sr std obs mp p) = map (\<lambda>ob. x_o (to_map_coordinates p ob)) obs"
  "sense_y (scored uf um sr std obs mp p) = map (\<lambda>ob. y_o (to_map_coordinates p ob)) obs"
  by (simp_all add: scored_def Let_def dataAssociation_coords observations_in_map_eq)

lemma updateWeights_eq:
  assumes "num_particles s \<le> int (length (particles s))"
  shows "updateWeights uf um sr std obs mp s =
     Inr (s\<lparr>particles := normalize_weights
            (map2 (\<lambda>n. scored (uf n) (um n) sr std obs mp)
               [0..<nat (num_particles s)] (take (nat (num_particles s)) (particles s))
               @ drop (nat (num_particles s)) (particles s)) (nat (num_particles s))\<rparr>)"
  using assms by (simp add: updateWeights_def score_particles_eq)

lemma normalize_weights_nth:
  assumes "k \<le> length ps" and "n < length ps"
  shows "\<exists>w. normalize_weights ps k ! n = (ps ! n)\<lparr>weight := w\<rparr>"
proof (cases "sum_list (map weight (take k ps)) > 1 / 100000 \<and> n < k")
  case True
  then show ?thesis
    using assms by (auto simp: normalize_weights_eq nth_append)
next
  case False
  have "ps ! n = (ps ! n)\<lparr>weight := weight (ps ! n)\<rparr>" by simp
  moreover have "normalize_weights ps k ! n = ps ! n"
    using False assms by (auto simp: normalize_weights_eq nth_append)
  ultimately show ?thesis by metis
qed

text \<open>
  C3. After \<open>updateWeights\<close>, for every particle \<open>n\<close> below the particle count and every
  observation, the recorded map coordinates are
  \<open>x + cos theta * obs_x - sin theta * obs_y\<close> and \<open>y + sin theta * obs_x + cos theta * obs_y\<close>
  with \<open>(x, y, theta)\<close> the pose of that particle: the observation rotated by \<open>theta\<close>
  and then translated by \<open>(x, y)\<close>.
\<close>

theorem updateWeights_transform:
  assumes "num_particles s \<le> int (length (particles s))"
    and "n < nat (num_particles s)"
  shows "\<exists>s'. updateWeights uf um sensor_range std_landmark observations map_landmarks s = Inr s' \<and>
     sense_x (particles s' ! n) =
       map (\<lambda>ob. x_p (particles s ! n) + cos (theta (particles s ! n)) * x_o ob
                                        - sin (theta (particles s ! n)) * y_o ob) observations \<and>
     sense_y (particles s' ! n) =
       map (\<lambda>ob. y_p (particles s ! n) + sin (theta (particles s ! n)) * x_o ob
                                        + cos (theta (particles s ! n)) * y_o ob) observations \<and>
     zip (sense_x (particles s' ! n)) (sense_y (particles s' ! n)) =
       map (\<lambda>ob. spec_translate (x_p (particles s ! n), y_p (particles s ! n))
                    (spec_rotate (theta (particles s ! n)) (x_o ob, y_o ob))) observations"
proof -
  let ?N = "nat (num_particles s)"
  let ?ps = "map2 (\<lambda>n. scored (uf n) (um n) sensor_range std_landmark observations map_landmarks)
               [0..<?N] (take ?N (particles s)) @ drop ?N (particles s)"
  let ?p = "particles s ! n"
  have N: "?N \<le> length (particles s)" and n: "n < length (particles s)"
    using assms by simp_all
  have len: "?N \<le> length ?ps" "n < length ?ps"
    using N n by simp_all
  obtain w where w: "normalize_weights ?ps ?N ! n = (?ps ! n)\<lparr>weight := w\<rparr>"
    using normalize_weights_nth [OF len] by blast
  have psn: "?ps ! n = scored (uf n) (um n) sensor_range std_landmark observations map_landmarks ?p"
    using map2_index_nth [OF assms(2) N] by simp
  define s' where "s' = s\<lparr>particles := normalize_weights ?ps ?N\<rparr>"
  have u: "updateWeights uf um sensor_range std_landmark observations map_landmarks s = Inr s'"
    using updateWeights_eq [OF assms(1)] by (simp add: s'_def)
  have sx: "sense_x (particles s' ! n) = map (\<lambda>ob. x_o (to_map_coordinates ?p ob)) observations"
    and sy: "sense_y (particles s' ! n) = map (\<lambda>ob. y_o (to_map_coordinates ?p ob)) observations"
    using w psn by (simp_all add: s'_def scored_fields)
  have z: "zip (map (\<lambda>ob. x_o (to_map_coordinates ?p ob)) observations)
               (map (\<lambda>ob. y_o (to_map_coordinates ?p ob)) observations)
         = map (\<lambda>ob. spec_translate (x_p ?p, y_p ?p) (spec_rotate (theta ?p) (x_o ob, y_o ob)))
             observations"
    by (induction observations)
       (simp_all add: to_map_coordinates_def spec_translate_def spec_rotate_def)
  show ?thesis
    using u sx sy z by (simp add: to_map_coordinates_def)
qed


theorem updateWeights_transform_witness:
  "num_particles \<lparr>num_particles = 1, is_initialized = True,
       particles = [\<lparr>id_p = 0, x_p = 4, y_p = 5, theta = pi / 2, weight = 1,
                     associations = [], sense_x = [], sense_y = []\<rparr>]\<rparr>
     \<le> int (length (particles \<lparr>num_particles = 1, is_initialized = True,
       particles = [\<lparr>id_p = 0, x_p = 4, y_p = 5, theta = pi / 2, weight = 1,
                     associations = [], sense_x = [], sense_y = []\<rparr>]\<rparr>)) \<and>
   0 < nat (num_particles \<lparr>num_particles = 1, is_initialized = True,
       particles = [\<lparr>id_p = 0, x_p = 4, y_p = 5, theta = pi / 2, weight = 1,
                     associations = [], sense_x = [], sense_y = []\<rparr>]\<rparr>) \<and>
   (\<exists>s'. updateWeights (\<lambda>n k. \<lparr>id_o = - 1, x_o = 0, y_o = 0\<rparr>)
            (\<lambda>n k. \<lparr>id_o = - 1, x_o = 0, y_o = 0\<rparr>)
            50 (3 / 10, 3 / 10) [\<lparr>id_o = 0, x_o = 2, y_o = 1\<rparr>]
            \<lparr>landmark_list = [\<lparr>id_i = 1, x_f = 3, y_f = 7\<rparr>]\<rparr>
            \<lparr>num_particles = 1, is_initialized = True,
             particles = [\<lparr>id_p = 0, x_p = 4, y_p = 5, theta = pi / 2, weight = 1,
                           associations = [], sense_x = [], sense_y = []\<rparr>]\<rparr> = Inr s' \<and>
         sense_x (particles s' ! 0) = [3] \<and> sense_y (particles s' ! 0) = [7])"
proof -
  let ?s = "\<lparr>num_particles = 1, is_initialized = True,
       particles = [\<lparr>id_p = 0, x_p = 4, y_p = 5, theta = pi / 2, weight = 1,
                     associations = [], sense_x = [], sense_y = []\<rparr>]\<rparr>"
  have h1: "num_particles ?s \<le> int (length (particles ?s))" by simp
  have h2: "0 < nat (num_particles ?s)" by simp
  from updateWeights_transform [OF h1 h2, of "\<lambda>n k. \<lparr>id_o = - 1, x_o = 0, y_o = 0\<rparr>"
      "\<lambda>n k. \<lparr>id_o = - 1, x_o = 0, y_o = 0\<rparr>" 50 "(3 / 10, 3 / 10)" "[\<lparr>id_o = 0, x_o = 2, y_o = 1\<rparr>]"
      "\<lparr>landmark_list = [\<lparr>id_i = 1, x_f = 3, y_f = 7\<rparr>]\<rparr>"]
  obtain s' where "updateWeights (\<lambda>n k. \<lparr>id_o = - 1, x_o = 0, y_o = 0\<rparr>)
            (\<lambda>n k. \<lparr>id_o = - 1, x_o = 0, y_o = 0\<rparr>)
            50 (3 / 10, 3 / 10) [\<lparr>id_o = 0, x_o = 2, y_o = 1\<rparr>]
            \<lparr>landmark_list = [\<lparr>id_i = 1, x_f = 3, y_f = 7\<rparr>]\<rparr> ?s = Inr s'"
    "sense_x (particles s' ! 0) = [3]" "sense_y (particles s' ! 0) = [7]"
    by auto
  with h1 h2 show ?thesis by blast
qed

lemma normalized_sum:
  "sum_list (map weight (map (\<lambda>q. q\<lparr>weight := weight q / c\<rparr>) qs)) = sum_list (map weight qs) / c"
  by (induction qs) (simp_all add: add_divide_distrib)

text \<open>
  C5. Let \<open>ps\<close> be the population after every particle is scored. If the sum of its
  weights exceeds 1e-5, \<open>updateWeights\<close> divides the weight of every particle by that sum
  and the resulting weights sum to 1; otherwise it leaves the scored population as it is.
  (The particle count equals the size of the population, as it does after \<open>init\<close>.)
\<close>

theorem updateWeights_normalize:
  assumes "num_particles s = int (length (particles s))"
  shows "\<exists>ps s'.
     score_particles uf um sensor_range std_landmark observations map_landmarks s = Inr ps \<and>
     updateWeights uf um sensor_range std_landmark observations map_landmarks s = Inr s' \<and>
     (1 / 100000 < sum_list (map weight ps) \<longrightarrow>
        particles s' = map (\<lambda>q. q\<lparr>weight := weight q / sum_list (map weight ps)\<rparr>) ps \<and>
        sum_list (map weight (particles s')) = 1) \<and>
     (\<not> 1 / 100000 < sum_list (map weight ps) \<longrightarrow> particles s' = ps)"
proof -
  let ?ps = "map2 (\<lambda>n. scored (uf n) (um n) sensor_range std_landmark observations map_landmarks)
      [0..<length (particles s)] (particles s)"
  let ?S = "sum_list (map weight ?ps)"
  have sc: "score_particles uf um sensor_range std_landmark observations map_landmarks s = Inr ?ps"
    using assms score_particles_eq [of s uf um sensor_range std_landmark observations map_landmarks]
    by simp
  have nw: "normalize_weights ?ps (length ?ps) =
      (if 1 / 100000 < ?S then map (\<lambda>q. q\<lparr>weight := weight q / ?S\<rparr>) ?ps else ?ps)"
    using normalize_weights_eq [of "length ?ps" ?ps] by simp
  have up: "updateWeights uf um sensor_range std_landmark observations map_landmarks s
      = Inr (s\<lparr>particles := normalize_weights ?ps (length ?ps)\<rparr>)"
    using sc assms by (simp add: updateWeights_def)
  have one: "sum_list (map weight (map (\<lambda>q. q\<lparr>weight := weight q / ?S\<rparr>) ?ps)) = 1"
    if "1 / 100000 < ?S"
    using that unfolding normalized_sum [of ?S ?ps] by simp
  show ?thesis
    using sc up nw one by (intro exI [of _ ?ps] exI [of _ "s\<lparr>particles := normalize_weights ?ps (length ?ps)\<rparr>"]) simp
qed


theorem updateWeights_normalize_witness:
  "num_particles \<lparr>num_particles = 2, is_initialized = True,
       particles = [\<lparr>id_p = 0, x_p = 4, y_p = 5, theta = 0, weight = 3 / 10,
                     associations = [], sense_x = [], sense_y = []\<rparr>,
                    \<lparr>id_p = 1, x_p = 6, y_p = 5, theta = 1, weight = 1 / 5,
                     associations = [], sense_x = [], sense_y = []\<rparr>]\<rparr>
     = int (length (particles \<lparr>num_particles = 2, is_initialized = True,
       particles = [\<lparr>id_p = 0, x_p = 4, y_p = 5, theta = 0, weight = 3 / 10,
                     associations = [], sense_x = [], sense_y = []\<rparr>,
                    \<lparr>id_p = 1, x_p = 6, y_p = 5, theta = 1, weight = 1 / 5,
                     associations = [], sense_x = [], sense_y = []\<rparr>]\<rparr>)) \<and>
   (\<exists>s'. updateWeights (\<lambda>n k. \<lparr>id_o = - 1, x_o = 0, y_o = 0\<rparr>)
            (\<lambda>n k. \<lparr>id_o = - 1, x_o = 0, y_o = 0\<rparr>)
            50 (3 / 10, 3 / 10) [] \<lparr>landmark_list = [\<lparr>id_i = 1, x_f = 3, y_f = 7\<rparr>]\<rparr>
            \<lparr>num_particles = 2, is_initialized = True,
             particles = [\<lparr>id_p = 0, x_p = 4, y_p = 5, theta = 0, weight = 3 / 10,
                           associations = [], sense_x = [], sense_y = []\<rparr>,
                          \<lparr>id_p = 1, x_p = 6, y_p = 5, theta = 1, weight = 1 / 5,
                           associations = [], sense_x = [], sense_y = []\<rparr>]\<rparr> = Inr s' \<and>
         map weight (particles s') = [1 / 2, 1 / 2] \<and>
         sum_list (map weight (particles s')) = 1)"
proof -
  let ?s = "\<lparr>num_particles = 2, is_initialized = True,
       particles = [\<lparr>id_p = 0, x_p = 4, y_p = 5, theta = 0, weight = 3 / 10,
                     associations = [], sense_x = [], sense_y = []\<rparr>,
                    \<lparr>id_p = 1, x_p = 6, y_p = 5, theta = 1, weight = 1 / 5,
                     associations = [], sense_x = [], sense_y = []\<rparr>]\<rparr>"
  let ?u = "\<lambda>(n::nat) (k::nat). \<lparr>id_o = - 1, x_o = 0, y_o = 0\<rparr>"
  let ?m = "\<lparr>landmark_list = [\<lparr>id_i = 1, x_f = 3, y_f = 7\<rparr>]\<rparr>"
  have h: "num_particles ?s = int (length (particles ?s))" by simp
  from updateWeights_normalize [OF h, of ?u ?u 50 "(3 / 10, 3 / 10)" "[]" ?m]
  obtain ps s' where
    sc: "score_particles ?u ?u 50 (3 / 10, 3 / 10) [] ?m ?s = Inr ps" and
    up: "updateWeights ?u ?u 50 (3 / 10, 3 / 10) [] ?m ?s = Inr s'" and
    big: "1 / 100000 < sum_list (map weight ps) \<longrightarrow>
        particles s' = map (\<lambda>q. q\<lparr>weight := weight q / sum_list (map weight ps)\<rparr>) ps \<and>
        sum_list (map weight (particles s')) = 1"
    by blast
  have "score_particles ?u ?u 50 (3 / 10, 3 / 10) [] ?m ?s =
      Inr [\<lparr>id_p = 0, x_p = 4, y_p = 5, theta = 0, weight = 1,
                     associations = [], sense_x = [], sense_y = []\<rparr>,
           \<lparr>id_p = 1, x_p = 6, y_p = 5, theta = 1, weight = 1,
                     associations = [], sense_x = [], sense_y = []\<rparr>]"
    by (simp add: score_particles_eq scored_def observations_in_map_eq dataAssociation_def
          upt_conv_Cons)
  with sc have ps: "ps = [\<lparr>id_p = 0, x_p = 4, y_p = 5, theta = 0, weight = 1,
                     associations = [], sense_x = [], sense_y = []\<rparr>,
           \<lparr>id_p = 1, x_p = 6, y_p = 5, theta = 1, weight = 1,
                     associations = [], sense_x = [], sense_y = []\<rparr>]"
    by simp
  with big have "map weight (particles s') = [1 / 2, 1 / 2] \<and>
         sum_list (map weight (particles s')) = 1"
    by simp
  with up have "\<exists>s'. updateWeights ?u ?u 50 (3 / 10, 3 / 10) [] ?m ?s = Inr s' \<and>
         map weight (particles s') = [1 / 2, 1 / 2] \<and>
         sum_list (map weight (particles s')) = 1"
    by (intro exI [of _ s']) (rule conjI)
  with h show ?thesis by (rule conjI)
qed

section \<open>Properties of CalculateParticleWeight\<close>

lemma multiv_prob_unit_less_one:
  "multiv_prob 1 1 x y a b < 1"
proof -
  have "exp (- ((x - a)\<^sup>2 / 2 + (y - b)\<^sup>2 / 2)) \<le> 1"
    by simp
  moreover have "1 < 2 * pi"
    using pi_ge_two by simp
  ultimately have "exp (- ((x - a)\<^sup>2 / 2 + (y - b)\<^sup>2 / 2)) < 2 * pi"
    by linarith
  then show ?thesis
    by (simp add: multiv_prob_def)
qed

text \<open>
  C8 does not hold of the code. For an association whose id (7) is not among the candidate
  landmarks, \<open>CalculateParticleWeight\<close> still multiplies the weight by a likelihood, taken
  at the coordinates of the uninitialised \<open>pred_LM_match\<close>: with standard deviations
  \<open>(1, 1)\<close> the weight is below 1 whatever those coordinates are, whereas the product over
  the observations whose id is present (there is none) is 1. The loop body of
  \<open>updateWeights\<close> reaches this case when no landmark of the map is in range of the
  particle: the one observation then finds no match, and the weight is again the likelihood
  at the uninitialised coordinates.
\<close>

theorem CalculateParticleWeight_unmatched:
  "CalculateParticleWeight unset
     \<lparr>id_p = 0, x_p = 0, y_p = 0, theta = 0, weight = 1,
      associations = [7], sense_x = [0], sense_y = [0]\<rparr> (1, 1)
     [\<lparr>id_o = 3, x_o = 2, y_o = 0\<rparr>]
   = Inr \<lparr>id_p = 0, x_p = 0, y_p = 0, theta = 0,
          weight = multiv_prob 1 1 0 0 (x_o (unset 0)) (y_o (unset 0)),
          associations = [7], sense_x = [0], sense_y = [0]\<rparr> \<and>
   multiv_prob 1 1 0 0 (x_o (unset 0)) (y_o (unset 0)) < 1 \<and>
   update_particle unset_fit unset 50 (1, 1) [\<lparr>id_o = 0, x_o = 2, y_o = 0\<rparr>]
     \<lparr>landmark_list = []\<rparr>
     \<lparr>id_p = 0, x_p = 0, y_p = 0, theta = 0, weight = 1,
      associations = [], sense_x = [], sense_y = []\<rparr>
   = Inr \<lparr>id_p = 0, x_p = 0, y_p = 0, theta = 0,
          weight = multiv_prob 1 1 2 0 (x_o (unset 0)) (y_o (unset 0)),
          associations = [id_o (unset_fit 0)], sense_x = [2], sense_y = [0]\<rparr> \<and>
   multiv_prob 1 1 2 0 (x_o (unset 0)) (y_o (unset 0)) < 1"
proof -
  have a: "CalculateParticleWeight unset
     \<lparr>id_p = 0, x_p = 0, y_p = 0, theta = 0, weight = 1,
      associations = [7], sense_x = [0], sense_y = [0]\<rparr> (1, 1)
     [\<lparr>id_o = 3, x_o = 2, y_o = 0\<rparr>]
   = Inr \<lparr>id_p = 0, x_p = 0, y_p = 0, theta = 0,
          weight = multiv_prob 1 1 0 0 (x_o (unset 0)) (y_o (unset 0)),
          associations = [7], sense_x = [0], sense_y = [0]\<rparr>"
    by (simp add: CalculateParticleWeight_def weight_step_def Let_def)
  have b: "update_particle unset_fit unset 50 (1, 1) [\<lparr>id_o = 0, x_o = 2, y_o = 0\<rparr>]
     \<lparr>landmark_list = []\<rparr>
     \<lparr>id_p = 0, x_p = 0, y_p = 0, theta = 0, weight = 1,
      associations = [], sense_x = [], sense_y = []\<rparr>
   = Inr \<lparr>id_p = 0, x_p = 0, y_p = 0, theta = 0,
          weight = multiv_prob 1 1 2 0 (x_o (unset 0)) (y_o (unset 0)),
          associations = [id_o (unset_fit 0)], sense_x = [2], sense_y = [0]\<rparr>"
    by (simp add: update_particle_def observations_in_map_def to_map_coordinates_def
          landmarks_in_range_def dataAssociation_def copy_step_def
          CalculateParticleWeight_def weight_step_def Let_def)
  show ?thesis
    using a b multiv_prob_unit_less_one by simp
qed

section \<open>Properties of prediction\<close>

lemma prediction_step_moved:
  "n < length ps \<Longrightarrow>
   prediction_step L dt v yr n (ps, r) =
     (ps[n := moved dt v yr (fst (draw3 L r)) (ps ! n)], snd (draw3 L r))"
  by (cases r) (simp add: prediction_step_def draw3_def moved_def Let_def split: prod.splits)

lemma prediction_fold:
  "i + k \<le> length ps \<Longrightarrow>
   fst (fold (prediction_step L dt v yr) [i..<i + k] (ps, r)) =
     take i ps @ map2 (moved dt v yr) (draws L k r) (take k (drop i ps)) @ drop (i + k) ps"
proof (induction k arbitrary: i ps r)
  case 0
  show ?case by simp
next
  case (Suc k)
  then have i: "i < length ps" by simp
  let ?q = "moved dt v yr (fst (draw3 L r)) (ps ! i)"
  let ?ps = "ps[i := ?q]"
  have up: "[i..<i + Suc k] = i # [Suc i..<Suc i + k]"
    by (simp add: upt_conv_Cons)
  have len: "Suc i + k \<le> length ?ps" using Suc.prems by simp
  have "fst (fold (prediction_step L dt v yr) [i..<i + Suc k] (ps, r))
      = fst (fold (prediction_step L dt v yr) [Suc i..<Suc i + k] (?ps, snd (draw3 L r)))"
    unfolding up using i by (simp add: prediction_step_moved)
  also have "\<dots> = take (Suc i) ?ps @
        map2 (moved dt v yr) (draws L k (snd (draw3 L r))) (take k (drop (Suc i) ?ps))
        @ drop (Suc i + k) ?ps"
    using Suc.IH [OF len] by simp
  also have "take (Suc i) ?ps = take i ps @ [?q]"
    using i by (simp add: take_Suc_conv_app_nth)
  also have "drop (Suc i) ?ps = drop (Suc i) ps"
    by simp
  also have "drop (Suc i + k) ?ps = drop (i + Suc k) ps"
    by simp
  finally show ?case
    using i by (simp add: Cons_nth_drop_Suc [symmetric])
qed

lemma prediction_eq:
  assumes "num_particles s \<le> int (length (particles s))"
  shows "prediction L dt (std0, std1, std2) v yr s =
     Inr (s\<lparr>particles :=
       map2 (moved dt v yr)
         (draws L (nat (num_particles s))
            (normal_distribution_new L 0 std0, normal_distribution_new L 0 std1,
             normal_distribution_new L 0 std2, default_random_engine L))
         (take (nat (num_particles s)) (particles s))
       @ drop (nat (num_particles s)) (particles s)\<rparr>)"
proof -
  have "0 + nat (num_particles s) \<le> length (particles s)"
    using assms by simp
  from prediction_fold [OF this, of L dt v yr]
  show ?thesis using assms by (simp add: prediction_def Let_def)
qed


lemma draw3_zero:
  assumes "mean dx = 0" "stddev dx = 0" "mean dy = 0" "stddev dy = 0" "mean dt = 0" "stddev dt = 0"
    and "draw3 L (dx, dy, dt, g) = (v, dx', dy', dt', g')"
  shows "v = (0, 0, 0) \<and> mean dx' = 0 \<and> stddev dx' = 0 \<and> mean dy' = 0 \<and> stddev dy' = 0 \<and>
         mean dt' = 0 \<and> stddev dt' = 0"
  using assms by (auto simp: draw3_def normal_draw_def split: prod.splits)

lemma draws_zero:
  "mean dx = 0 \<Longrightarrow> stddev dx = 0 \<Longrightarrow> mean dy = 0 \<Longrightarrow> stddev dy = 0 \<Longrightarrow>
   mean dt = 0 \<Longrightarrow> stddev dt = 0 \<Longrightarrow>
   draws L k (dx, dy, dt, g) = replicate k (0, 0, 0)"
proof (induction k arbitrary: dx dy dt g)
  case 0
  show ?case by simp
next
  case (Suc k)
  obtain v dx' dy' dt' g' where d: "draw3 L (dx, dy, dt, g) = (v, dx', dy', dt', g')"
    by (metis prod_cases5)
  from draw3_zero [OF Suc.prems d] Suc.IH [of dx' dy' dt' g'] d
  show ?case by simp
qed

lemma map2_replicate_nth:
  "n < k \<Longrightarrow> k \<le> length ps \<Longrightarrow>
   (map2 f (replicate k c) (take k ps) @ drop k ps) ! n = f c (ps ! n)"
  by (simp add: nth_append)

text \<open>
  C4. With the three noise standard deviations equal to zero, \<open>prediction\<close> returns and
  every particle \<open>n\<close> below the particle count has moved by exactly the kinematic model:
  when \<open>|yaw_rate| > 0.0001\<close>,
  \<open>x += (v / omega) * (sin (theta + omega * dt) - sin theta)\<close>,
  \<open>y += (v / omega) * (- cos (theta + omega * dt) + cos theta)\<close>, \<open>theta += omega * dt\<close>;
  otherwise \<open>x += v * cos theta * dt\<close>, \<open>y += v * sin theta * dt\<close>,
  \<open>theta += omega * dt\<close>. (A normal draw is the standard variate times the deviation plus
  the mean, so a deviation of zero adds the mean 0.) The witness runs the pose (0, 0, 0)
  with v = 1 and dt = 1: yaw rate 0 gives (1, 0, 0), yaw rate pi / 4 the arc position.
\<close>

theorem prediction_noise_free:
  assumes "num_particles s \<le> int (length (particles s))"
    and "n < nat (num_particles s)"
  shows "\<exists>s'. prediction L delta_t (0, 0, 0) velocity yaw_rate s = Inr s' \<and>
     (\<bar>yaw_rate\<bar> > 0.0001 \<longrightarrow>
        x_p (particles s' ! n) = x_p (particles s ! n) +
           velocity / yaw_rate *
             (sin (theta (particles s ! n) + yaw_rate * delta_t) - sin (theta (particles s ! n))) \<and>
        y_p (particles s' ! n) = y_p (particles s ! n) +
           velocity / yaw_rate *
             (- cos (theta (particles s ! n) + yaw_rate * delta_t) + cos (theta (particles s ! n))) \<and>
        theta (particles s' ! n) = theta (particles s ! n) + yaw_rate * delta_t) \<and>
     (\<bar>yaw_rate\<bar> \<le> 0.0001 \<longrightarrow>
        x_p (particles s' ! n) = x_p (particles s ! n) +
           velocity * cos (theta (particles s ! n)) * delta_t \<and>
        y_p (particles s' ! n) = y_p (particles s ! n) +
           velocity * sin (theta (particles s ! n)) * delta_t \<and>
        theta (particles s' ! n) = theta (particles s ! n) + yaw_rate * delta_t)"
proof -
  let ?N = "nat (num_particles s)"
  let ?r = "(normal_distribution_new L 0 0, normal_distribution_new L 0 0,
             normal_distribution_new L 0 0, default_random_engine L)"
  have z: "draws L ?N ?r = replicate ?N (0, 0, 0)"
    by (rule draws_zero) (simp_all add: normal_distribution_new_def)
  define s' where "s' = s\<lparr>particles :=
       map2 (moved delta_t velocity yaw_rate) (replicate ?N (0, 0, 0)) (take ?N (particles s))
       @ drop ?N (particles s)\<rparr>"
  have p: "prediction L delta_t (0, 0, 0) velocity yaw_rate s = Inr s'"
    using prediction_eq [OF assms(1), of L delta_t 0 0 0 velocity yaw_rate] z
    by (simp add: s'_def)
  have N: "?N \<le> length (particles s)" using assms(1) by simp
  have "particles s' ! n = moved delta_t velocity yaw_rate (0, 0, 0) (particles s ! n)"
    unfolding s'_def using map2_replicate_nth [OF assms(2) N] by simp
  then show ?thesis
    using p by (simp add: moved_def)
qed

theorem prediction_noise_free_witness:
  "num_particles \<lparr>num_particles = 1, is_initialized = True,
       particles = [\<lparr>id_p = 0, x_p = 0, y_p = 0, theta = 0, weight = 1,
                     associations = [], sense_x = [], sense_y = []\<rparr>]\<rparr>
     \<le> int (length (particles \<lparr>num_particles = 1, is_initialized = True,
       particles = [\<lparr>id_p = 0, x_p = 0, y_p = 0, theta = 0, weight = 1,
                     associations = [], sense_x = [], sense_y = []\<rparr>]\<rparr>)) \<and>
   0 < nat (num_particles \<lparr>num_particles = 1, is_initialized = True,
       particles = [\<lparr>id_p = 0, x_p = 0, y_p = 0, theta = 0, weight = 1,
                     associations = [], sense_x = [], sense_y = []\<rparr>]\<rparr>) \<and>
   (\<exists>s'. prediction lcg_lib 1 (0, 0, 0) 1 0 \<lparr>num_particles = 1, is_initialized = True,
       particles = [\<lparr>id_p = 0, x_p = 0, y_p = 0, theta = 0, weight = 1,
                     associations = [], sense_x = [], sense_y = []\<rparr>]\<rparr> = Inr s' \<and>
      x_p (particles s' ! 0) = 1 \<and> y_p (particles s' ! 0) = 0 \<and> theta (particles s' ! 0) = 0) \<and>
   (\<exists>s'. prediction lcg_lib 1 (0, 0, 0) 1 (pi / 4) \<lparr>num_particles = 1, is_initialized = True,
       particles = [\<lparr>id_p = 0, x_p = 0, y_p = 0, theta = 0, weight = 1,
                     associations = [], sense_x = [], sense_y = []\<rparr>]\<rparr> = Inr s' \<and>
      x_p (particles s' ! 0) = sin (pi / 4) / (pi / 4) \<and>
      y_p (particles s' ! 0) = (1 - cos (pi / 4)) / (pi / 4) \<and>
      theta (particles s' ! 0) = pi / 4)"
proof -
  let ?s = "\<lparr>num_particles = 1, is_initialized = True,
       particles = [\<lparr>id_p = 0, x_p = 0, y_p = 0, theta = 0, weight = 1,
                     associations = [], sense_x = [], sense_y = []\<rparr>]\<rparr>"
  have h1: "num_particles ?s \<le> int (length (particles ?s))" by simp
  have h2: "0 < nat (num_particles ?s)" by simp
  have a: "\<exists>s'. prediction lcg_lib 1 (0, 0, 0) 1 0 ?s = Inr s' \<and>
      x_p (particles s' ! 0) = 1 \<and> y_p (particles s' ! 0) = 0 \<and> theta (particles s' ! 0) = 0"
    using prediction_noise_free [OF h1 h2, of lcg_lib 1 1 0] by simp
  have big: "1 / 10000 < pi / 4"
    using pi_ge_two by simp
  have b: "\<exists>s'. prediction lcg_lib 1 (0, 0, 0) 1 (pi / 4) ?s = Inr s' \<and>
      x_p (particles s' ! 0) = sin (pi / 4) / (pi / 4) \<and>
      y_p (particles s' ! 0) = (1 - cos (pi / 4)) / (pi / 4) \<and>
      theta (particles s' ! 0) = pi / 4"
    using prediction_noise_free [OF h1 h2, of lcg_lib 1 1 "pi / 4"] big
    by (simp add: field_simps)
  from h1 h2 a b show ?thesis by (intro conjI)
qed

section \<open>Properties of resample\<close>

lemma resample_fold:
  "(\<And>g. 0 \<le> fst (discrete_variate L ws g) \<and> fst (discrete_variate L ws g) < int (length ps)) \<Longrightarrow>
   map_sum (\<lambda>e. e) fst (fold (resample_step L ws ps) ns (Inr (acc, g)))
     = Inr (acc @ map (\<lambda>i. ps ! nat i) (index_draws L ws (length ns) g))"
proof (induction ns arbitrary: acc g)
  case Nil
  show ?case by simp
next
  case (Cons n ns)
  obtain i g' where d: "discrete_variate L ws g = (i, g')"
    by (cases "discrete_variate L ws g") auto
  have "0 \<le> i \<and> i < int (length ps)"
    using Cons.prems [of g] d by simp
  then have "resample_step L ws ps n (Inr (acc, g)) = Inr (acc @ [ps ! nat i], g')"
    by (simp add: resample_step_def d)
  then show ?case
    using Cons.IH [OF Cons.prems, of "acc @ [ps ! nat i]" g'] d by simp
qed

lemma index_draws_length: "length (index_draws L ws k g) = k"
  by (induction k arbitrary: g) simp_all

lemma index_draws_set:
  "(\<And>g. P (fst (discrete_variate L ws g))) \<Longrightarrow> i \<in> set (index_draws L ws k g) \<Longrightarrow> P i"
  by (induction k arbitrary: g) auto

lemma collect_weights_eq:
  "k \<le> length ps \<Longrightarrow> collect_weights ps k = map weight (take k ps)"
  using fold_index_collect [of k ps weight] by (simp add: collect_weights_def)

lemma resample_eq:
  assumes "num_particles s = int (length (particles s))"
    and "\<And>g. 0 \<le> fst (discrete_variate L (map weight (particles s)) g) \<and>
             fst (discrete_variate L (map weight (particles s)) g) < int (length (particles s))"
  shows "resample L s = Inr (s\<lparr>particles := map (\<lambda>i. particles s ! nat i)
            (index_draws L (map weight (particles s)) (length (particles s))
               (default_random_engine L))\<rparr>)"
proof -
  let ?ws = "map weight (particles s)"
  have cw: "collect_weights (particles s) (length (particles s)) = ?ws"
    using collect_weights_eq [of "length (particles s)" "particles s"] by simp
  have f: "map_sum (\<lambda>e. e) fst (fold (resample_step L ?ws (particles s)) [0..<length (particles s)]
            (Inr ([], default_random_engine L)))
        = Inr (map (\<lambda>i. particles s ! nat i)
            (index_draws L ?ws (length (particles s)) (default_random_engine L)))"
    using resample_fold [of L ?ws "particles s" "[0..<length (particles s)]" "[]", OF assms(2)]
    by simp
  show ?thesis
    using f assms(1) cw by (auto simp: resample_def Let_def split: sum.splits)
qed

text \<open>
  C6. \<open>resample\<close> replaces the population of \<open>N\<close> particles by \<open>N\<close> particles, each a copy
  of the current particle at an index drawn from the library's discrete distribution over
  the current weights (with replacement: every draw reads the current population). The
  distribution is the library's; what is assumed of it is that a draw is an index of the
  weight vector whose weight is positive (an index of weight zero has probability zero).
  Then every new particle is a current particle of positive weight, and when one particle
  has weight 1.0 and all others 0.0 the new population consists of \<open>N\<close> copies of it.
\<close>

theorem resample_population:
  assumes "num_particles s = int (length (particles s))"
    and "\<And>g. 0 \<le> fst (discrete_variate L (map weight (particles s)) g) \<and>
             fst (discrete_variate L (map weight (particles s)) g) < int (length (particles s)) \<and>
             0 < weight (particles s ! nat (fst (discrete_variate L (map weight (particles s)) g)))"
  shows "\<exists>s'. resample L s = Inr s' \<and>
      length (particles s') = length (particles s) \<and>
      particles s' = map (\<lambda>i. particles s ! nat i)
         (index_draws L (map weight (particles s)) (length (particles s))
            (default_random_engine L)) \<and>
      (\<forall>p \<in> set (particles s'). p \<in> set (particles s) \<and> 0 < weight p) \<and>
      (\<forall>k < length (particles s).
         weight (particles s ! k) = 1 \<and>
         (\<forall>i < length (particles s). i \<noteq> k \<longrightarrow> weight (particles s ! i) = 0) \<longrightarrow>
         particles s' = replicate (length (particles s)) (particles s ! k))"
proof -
  let ?ps = "particles s"
  let ?ws = "map weight ?ps"
  let ?is = "index_draws L ?ws (length ?ps) (default_random_engine L)"
  define s' where "s' = s\<lparr>particles := map (\<lambda>i. ?ps ! nat i) ?is\<rparr>"
  have r: "resample L s = Inr s'"
    unfolding s'_def using assms by (intro resample_eq) auto
  have ok: "0 \<le> i \<and> i < int (length ?ps) \<and> 0 < weight (?ps ! nat i)" if "i \<in> set ?is" for i
    using index_draws_set [of "\<lambda>i. 0 \<le> i \<and> i < int (length ?ps) \<and> 0 < weight (?ps ! nat i)"
        L ?ws i "length ?ps" "default_random_engine L"] assms(2) that by simp
  have len: "length (particles s') = length ?ps"
    by (simp add: s'_def index_draws_length)
  have mem: "\<forall>p \<in> set (particles s'). p \<in> set ?ps \<and> 0 < weight p"
  proof
    fix p assume "p \<in> set (particles s')"
    then obtain i where i: "i \<in> set ?is" "p = ?ps ! nat i"
      by (auto simp: s'_def)
    from ok [OF i(1)] have "nat i < length ?ps" "0 < weight (?ps ! nat i)"
      by (simp_all add: nat_less_iff)
    then show "p \<in> set ?ps \<and> 0 < weight p"
      using i(2) by simp
  qed
  have one: "particles s' = replicate (length ?ps) (?ps ! k)"
    if k: "k < length ?ps" "weight (?ps ! k) = 1"
       "\<forall>i < length ?ps. i \<noteq> k \<longrightarrow> weight (?ps ! i) = 0" for k
  proof -
    have "nat i = k" if "i \<in> set ?is" for i
    proof (rule ccontr)
      assume "nat i \<noteq> k"
      moreover have "nat i < length ?ps" using ok [OF that] by (simp add: nat_less_iff)
      ultimately have "weight (?ps ! nat i) = 0" using k(3) by simp
      then show False using ok [OF that] by simp
    qed
    then have "map (\<lambda>i. ?ps ! nat i) ?is = map (\<lambda>i. ?ps ! k) ?is"
      by simp
    then show ?thesis
      by (simp add: s'_def map_replicate_const index_draws_length)
  qed
  show ?thesis
    using r len mem one by (intro exI [of _ s']) (auto simp: s'_def)
qed

lemma unit_of_bounds: "0 \<le> unit_of g \<and> unit_of g < 1"
  by (simp add: unit_of_def)

lemma lcg_one_hot:
  "fst (discrete_variate lcg_lib [0, 1, 0] g) = 1"
  using unit_of_bounds [of "minstd g"] by (simp add: lcg_lib_def)

theorem resample_population_witness:
  "num_particles \<lparr>num_particles = 3, is_initialized = True,
       particles = [\<lparr>id_p = 0, x_p = 4, y_p = 5, theta = 0, weight = 0,
                     associations = [], sense_x = [], sense_y = []\<rparr>,
                    \<lparr>id_p = 1, x_p = 6, y_p = 3, theta = 1, weight = 1,
                     associations = [], sense_x = [], sense_y = []\<rparr>,
                    \<lparr>id_p = 2, x_p = 7, y_p = 2, theta = 2, weight = 0,
                     associations = [], sense_x = [], sense_y = []\<rparr>]\<rparr> = int 3 \<and>
   (\<forall>g. fst (discrete_variate lcg_lib [0, 1, 0] g) = 1) \<and>
   (\<exists>s'. resample lcg_lib \<lparr>num_particles = 3, is_initialized = True,
       particles = [\<lparr>id_p = 0, x_p = 4, y_p = 5, theta = 0, weight = 0,
                     associations = [], sense_x = [], sense_y = []\<rparr>,
                    \<lparr>id_p = 1, x_p = 6, y_p = 3, theta = 1, weight = 1,
                     associations = [], sense_x = [], sense_y = []\<rparr>,
                    \<lparr>id_p = 2, x_p = 7, y_p = 2, theta = 2, weight = 0,
                     associations = [], sense_x = [], sense_y = []\<rparr>]\<rparr> = Inr s' \<and>
      particles s' = [\<lparr>id_p = 1, x_p = 6, y_p = 3, theta = 1, weight = 1,
                       associations = [], sense_x = [], sense_y = []\<rparr>,
                      \<lparr>id_p = 1, x_p = 6, y_p = 3, theta = 1, weight = 1,
                       associations = [], sense_x = [], sense_y = []\<rparr>,
                      \<lparr>id_p = 1, x_p = 6, y_p = 3, theta = 1, weight = 1,
                       associations = [], sense_x = [], sense_y = []\<rparr>])"
proof -
  let ?p0 = "\<lparr>id_p = 0, x_p = 4, y_p = 5, theta = 0, weight = 0,
                     associations = [], sense_x = [], sense_y = []\<rparr>"
  let ?p1 = "\<lparr>id_p = 1, x_p = 6, y_p = 3, theta = 1, weight = 1,
                     associations = [], sense_x = [], sense_y = []\<rparr>"
  let ?p2 = "\<lparr>id_p = 2, x_p = 7, y_p = 2, theta = 2, weight = 0,
                     associations = [], sense_x = [], sense_y = []\<rparr>"
  let ?s = "\<lparr>num_particles = 3, is_initialized = True, particles = [?p0, ?p1, ?p2]\<rparr>"
  have h1: "num_particles ?s = int (length (particles ?s))" by simp
  have h2: "0 \<le> fst (discrete_variate lcg_lib (map weight (particles ?s)) g) \<and>
             fst (discrete_variate lcg_lib (map weight (particles ?s)) g) < int (length (particles ?s)) \<and>
             0 < weight (particles ?s ! nat (fst (discrete_variate lcg_lib (map weight (particles ?s)) g)))"
    for g
    by (simp add: lcg_one_hot)
  from resample_population [OF h1 h2]
  obtain s' where r: "resample lcg_lib ?s = Inr s'" and
    one: "\<forall>k < length (particles ?s).
         weight (particles ?s ! k) = 1 \<and>
         (\<forall>i < length (particles ?s). i \<noteq> k \<longrightarrow> weight (particles ?s ! i) = 0) \<longrightarrow>
         particles s' = replicate (length (particles ?s)) (particles ?s ! k)"
    by blast
  have hot: "weight (particles ?s ! 1) = 1 \<and>
         (\<forall>i < length (particles ?s). i \<noteq> 1 \<longrightarrow> weight (particles ?s ! i) = 0)"
    by (auto simp: nth_Cons' less_Suc_eq)
  have "(1::nat) < length (particles ?s)" by simp
  with one hot have "particles s' = replicate (length (particles ?s)) (particles ?s ! 1)"
    by blast
  then have "particles s' = [?p1, ?p1, ?p1]"
    by simp
  with r have e: "\<exists>s'. resample lcg_lib ?s = Inr s' \<and> particles s' = [?p1, ?p1, ?p1]"
    by (intro exI [of _ s']) (rule conjI)
  have a: "num_particles ?s = int 3" by simp
  have b: "\<forall>g. fst (discrete_variate lcg_lib [0, 1, 0] g) = 1"
    by (simp add: lcg_one_hot)
  from a b e show ?thesis by (intro conjI)
qed

section \<open>Determinism of init, prediction and resample\<close>

lemma init_step_sampled:
  "init_step L n (ps, r) = (ps @ [sampled n (fst (draw3 L r))], snd (draw3 L r))"
  by (cases r) (simp add: init_step_def draw3_def sampled_def split: prod.splits)

lemma init_fold:
  "fst (fold (init_step L) [i..<i + k] (ps, r)) = ps @ map2 sampled [i..<i + k] (draws L k r)"
proof (induction k arbitrary: i ps r)
  case 0
  show ?case by simp
next
  case (Suc k)
  have up: "[i..<i + Suc k] = i # [Suc i..<Suc i + k]"
    by (simp add: upt_conv_Cons)
  show ?case
    unfolding up using Suc.IH [of "Suc i" "ps @ [sampled i (fst (draw3 L r))]" "snd (draw3 L r)"]
    by (simp add: init_step_sampled)
qed

lemma init_eq:
  "particles (init L x y th std s) =
     particles s @ map2 sampled [0..<100] (draws L 100 (fresh L (x, y, th) std))"
proof -
  obtain std0 std1 std2 where std: "std = (std0, std1, std2)"
    by (cases std) auto
  show ?thesis
    using init_fold [of L 0 100 "particles s"]
    by (simp add: init_def std Let_def fresh_def)
qed

lemma prediction_all:
  "map_sum (\<lambda>e. e) particles (prediction L dt std_pos v yr s) =
     (if num_particles s \<le> int (length (particles s))
      then Inr (map2 (moved dt v yr)
                  (draws L (nat (num_particles s)) (fresh L (0, 0, 0) std_pos))
                  (take (nat (num_particles s)) (particles s))
                @ drop (nat (num_particles s)) (particles s))
      else Inl OutOfRange)"
proof -
  obtain std0 std1 std2 where std: "std_pos = (std0, std1, std2)"
    by (cases std_pos) auto
  show ?thesis
  proof (cases "num_particles s \<le> int (length (particles s))")
    case True
    then show ?thesis
      using prediction_eq [OF True, of L dt std0 std1 std2 v yr]
      by (simp add: std fresh_def)
  next
    case False
    then show ?thesis
      by (simp add: prediction_def std)
  qed
qed

lemma resample_fold_error:
  "fold (resample_step L ws ps) ns (Inl e) = Inl e"
  by (induction ns) (simp_all add: resample_step_def)

lemma resample_fold_all:
  "map_sum (\<lambda>e. e) fst (fold (resample_step L ws ps) ns (Inr (acc, g))) =
     (if \<forall>i \<in> set (index_draws L ws (length ns) g). 0 \<le> i \<and> i < int (length ps)
      then Inr (acc @ map (\<lambda>i. ps ! nat i) (index_draws L ws (length ns) g))
      else Inl OutOfRange)"
proof (induction ns arbitrary: acc g)
  case Nil
  show ?case by simp
next
  case (Cons n ns)
  obtain i g' where d: "discrete_variate L ws g = (i, g')"
    by (cases "discrete_variate L ws g") auto
  show ?case
  proof (cases "0 \<le> i \<and> i < int (length ps)")
    case True
    then have "resample_step L ws ps n (Inr (acc, g)) = Inr (acc @ [ps ! nat i], g')"
      by (simp add: resample_step_def d)
    then show ?thesis
      using Cons.IH [of "acc @ [ps ! nat i]" g'] d True by simp
  next
    case False
    then have "resample_step L ws ps n (Inr (acc, g)) = Inl OutOfRange"
      by (simp add: resample_step_def d)
    then show ?thesis
      using False d by (auto simp: resample_fold_error)
  qed
qed

lemma resample_all:
  "map_sum (\<lambda>e. e) particles (resample L s) =
     (if num_particles s \<le> int (length (particles s)) \<and>
         (\<forall>i \<in> set (index_draws L (map weight (take (nat (num_particles s)) (particles s)))
                        (nat (num_particles s)) (default_random_engine L)).
            0 \<le> i \<and> i < int (length (particles s)))
      then Inr (map (\<lambda>i. particles s ! nat i)
                  (index_draws L (map weight (take (nat (num_particles s)) (particles s)))
                     (nat (num_particles s)) (default_random_engine L)))
      else Inl OutOfRange)"
proof (cases "num_particles s \<le> int (length (particles s))")
  case False
  then show ?thesis by (simp add: resample_def)
next
  case True
  let ?N = "nat (num_particles s)"
  let ?ws = "map weight (take ?N (particles s))"
  have N: "?N \<le> length (particles s)" using True by simp
  have cw: "collect_weights (particles s) ?N = ?ws"
    using collect_weights_eq [OF N] .
  have f: "map_sum (\<lambda>e. e) fst (fold (resample_step L ?ws (particles s)) [0..<?N]
             (Inr ([], default_random_engine L))) =
     (if \<forall>i \<in> set (index_draws L ?ws ?N (default_random_engine L)).
           0 \<le> i \<and> i < int (length (particles s))
      then Inr (map (\<lambda>i. particles s ! nat i) (index_draws L ?ws ?N (default_random_engine L)))
      else Inl OutOfRange)"
    using resample_fold_all [of L ?ws "particles s" "[0..<?N]" "[]" "default_random_engine L"]
    by simp
  show ?thesis
  proof (cases "fold (resample_step L ?ws (particles s)) [0..<?N]
             (Inr ([], default_random_engine L))")
    case (Inl e)
    then show ?thesis
      using f True cw by (simp add: resample_def Let_def split: if_splits)
  next
    case (Inr r)
    then show ?thesis
      using f True cw by (cases r) (simp add: resample_def Let_def split: if_splits)
  qed
qed


lemma draws_length: "length (draws L k r) = k"
  by (induction k arbitrary: r) simp_all

lemma prediction_again:
  assumes "prediction L dt std_pos v yr s = Inr s'"
  shows "num_particles s' = num_particles s \<and> length (particles s') = length (particles s) \<and>
         num_particles s \<le> int (length (particles s))"
proof -
  obtain std0 std1 std2 where std: "std_pos = (std0, std1, std2)"
    by (cases std_pos) auto
  have b: "num_particles s \<le> int (length (particles s))"
    using assms by (auto simp: prediction_def std split: if_splits)
  from prediction_eq [OF b, of L dt std0 std1 std2 v yr] assms
  show ?thesis
    using b by (auto simp: std draws_length)
qed

text \<open>
  C10. Every call of \<open>init\<close>, \<open>prediction\<close> and \<open>resample\<close> starts from a
  default-constructed engine and keeps no generator for the next call. \<open>init\<close> appends the
  100 particles made of the draws that start from the fresh engine and distribution
  objects, and a second call appends the same 100 again. \<open>prediction\<close> moves the particles
  below the count by the noise triples drawn from the fresh engine, a sequence fixed by the
  library, the deviations and the count, and a second call on its result injects the same
  sequence. \<open>resample\<close> copies the particles at the indices drawn from the fresh engine over
  the current weights. (Both fail on a particle or an index outside the vector.) Hence on
  two filters with the same particles and the same particle count, calls with the same
  arguments produce the same population, or the same error.
\<close>

theorem calls_deterministic:
  assumes "particles s2 = particles s1" and "num_particles s2 = num_particles s1"
  shows
   "particles (init L x y th std s1)
      = particles s1 @ map2 sampled [0..<100] (draws L 100 (fresh L (x, y, th) std)) \<and>
    particles (init L x y th std (init L x y th std s1))
      = particles s1 @ map2 sampled [0..<100] (draws L 100 (fresh L (x, y, th) std))
                     @ map2 sampled [0..<100] (draws L 100 (fresh L (x, y, th) std)) \<and>
    particles (init L x y th std s2) = particles (init L x y th std s1) \<and>
    map_sum (\<lambda>e. e) particles (prediction L delta_t std_pos velocity yaw_rate s1)
      = (if num_particles s1 \<le> int (length (particles s1))
         then Inr (map2 (moved delta_t velocity yaw_rate)
                     (draws L (nat (num_particles s1)) (fresh L (0, 0, 0) std_pos))
                     (take (nat (num_particles s1)) (particles s1))
                   @ drop (nat (num_particles s1)) (particles s1))
         else Inl OutOfRange) \<and>
    (\<forall>s'. prediction L delta_t std_pos velocity yaw_rate s1 = Inr s' \<longrightarrow>
       map_sum (\<lambda>e. e) particles (prediction L delta_t std_pos velocity yaw_rate s')
         = Inr (map2 (moved delta_t velocity yaw_rate)
                  (draws L (nat (num_particles s1)) (fresh L (0, 0, 0) std_pos))
                  (take (nat (num_particles s1)) (particles s'))
                @ drop (nat (num_particles s1)) (particles s'))) \<and>
    map_sum (\<lambda>e. e) particles (prediction L delta_t std_pos velocity yaw_rate s2)
      = map_sum (\<lambda>e. e) particles (prediction L delta_t std_pos velocity yaw_rate s1) \<and>
    map_sum (\<lambda>e. e) particles (resample L s1)
      = (if num_particles s1 \<le> int (length (particles s1)) \<and>
            (\<forall>i \<in> set (index_draws L (map weight (take (nat (num_particles s1)) (particles s1)))
                           (nat (num_particles s1)) (default_random_engine L)).
               0 \<le> i \<and> i < int (length (particles s1)))
         then Inr (map (\<lambda>i. particles s1 ! nat i)
                     (index_draws L (map weight (take (nat (num_particles s1)) (particles s1)))
                        (nat (num_particles s1)) (default_random_engine L)))
         else Inl OutOfRange) \<and>
    map_sum (\<lambda>e. e) particles (resample L s2) = map_sum (\<lambda>e. e) particles (resample L s1)"
proof -
  have i1: "particles (init L x y th std s1)
      = particles s1 @ map2 sampled [0..<100] (draws L 100 (fresh L (x, y, th) std))"
    by (rule init_eq)
  have i2: "particles (init L x y th std (init L x y th std s1))
      = particles s1 @ map2 sampled [0..<100] (draws L 100 (fresh L (x, y, th) std))
                     @ map2 sampled [0..<100] (draws L 100 (fresh L (x, y, th) std))"
    using init_eq [of L x y th std "init L x y th std s1"] i1 by simp
  have i3: "particles (init L x y th std s2) = particles (init L x y th std s1)"
    using init_eq [of L x y th std s2] i1 assms(1) by simp
  note p1 = prediction_all [of L delta_t std_pos velocity yaw_rate s1]
  have p2: "map_sum (\<lambda>e. e) particles (prediction L delta_t std_pos velocity yaw_rate s')
         = Inr (map2 (moved delta_t velocity yaw_rate)
                  (draws L (nat (num_particles s1)) (fresh L (0, 0, 0) std_pos))
                  (take (nat (num_particles s1)) (particles s'))
                @ drop (nat (num_particles s1)) (particles s'))"
    if "prediction L delta_t std_pos velocity yaw_rate s1 = Inr s'" for s'
    using prediction_again [OF that] prediction_all [of L delta_t std_pos velocity yaw_rate s']
    by simp
  have p3: "map_sum (\<lambda>e. e) particles (prediction L delta_t std_pos velocity yaw_rate s2)
      = map_sum (\<lambda>e. e) particles (prediction L delta_t std_pos velocity yaw_rate s1)"
    using prediction_all [of L delta_t std_pos velocity yaw_rate s2] p1 assms by simp
  note r1 = resample_all [of L s1]
  have r2: "map_sum (\<lambda>e. e) particles (resample L s2) = map_sum (\<lambda>e. e) particles (resample L s1)"
    using resample_all [of L s2] r1 assms by simp
  from p2 have p2': "\<forall>s'. prediction L delta_t std_pos velocity yaw_rate s1 = Inr s' \<longrightarrow>
       map_sum (\<lambda>e. e) particles (prediction L delta_t std_pos velocity yaw_rate s')
         = Inr (map2 (moved delta_t velocity yaw_rate)
                  (draws L (nat (num_particles s1)) (fresh L (0, 0, 0) std_pos))
                  (take (nat (num_particles s1)) (particles s'))
                @ drop (nat (num_particles s1)) (particles s'))"
    by blast
  from i1 i2 i3 p1 p2' p3 r1 r2 show ?thesis
    by (intro conjI)
qed

theorem calls_deterministic_witness:
  "particles \<lparr>num_particles = 1, is_initialized = False,
       particles = [\<lparr>id_p = 0, x_p = 4, y_p = 5, theta = 1, weight = 1,
                     associations = [], sense_x = [], sense_y = []\<rparr>]\<rparr>
     = particles \<lparr>num_particles = 1, is_initialized = True,
       particles = [\<lparr>id_p = 0, x_p = 4, y_p = 5, theta = 1, weight = 1,
                     associations = [], sense_x = [], sense_y = []\<rparr>]\<rparr> \<and>
   num_particles \<lparr>num_particles = 1, is_initialized = False,
       particles = [\<lparr>id_p = 0, x_p = 4, y_p = 5, theta = 1, weight = 1,
                     associations = [], sense_x = [], sense_y = []\<rparr>]\<rparr>
     = num_particles \<lparr>num_particles = 1, is_initialized = True,
       particles = [\<lparr>id_p = 0, x_p = 4, y_p = 5, theta = 1, weight = 1,
                     associations = [], sense_x = [], sense_y = []\<rparr>]\<rparr> \<and>
   map_sum (\<lambda>e. e) particles (prediction lcg_lib (1 / 10) (3 / 10, 3 / 10, 1 / 100) 8 (1 / 5)
       \<lparr>num_particles = 1, is_initialized = True,
       particles = [\<lparr>id_p = 0, x_p = 4, y_p = 5, theta = 1, weight = 1,
                     associations = [], sense_x = [], sense_y = []\<rparr>]\<rparr>)
     = Inr (map2 (moved (1 / 10) 8 (1 / 5))
              (draws lcg_lib 1 (fresh lcg_lib (0, 0, 0) (3 / 10, 3 / 10, 1 / 100)))
              [\<lparr>id_p = 0, x_p = 4, y_p = 5, theta = 1, weight = 1,
                associations = [], sense_x = [], sense_y = []\<rparr>]) \<and>
   map_sum (\<lambda>e. e) particles (prediction lcg_lib (1 / 10) (3 / 10, 3 / 10, 1 / 100) 8 (1 / 5)
       \<lparr>num_particles = 1, is_initialized = False,
       particles = [\<lparr>id_p = 0, x_p = 4, y_p = 5, theta = 1, weight = 1,
                     associations = [], sense_x = [], sense_y = []\<rparr>]\<rparr>)
     = map_sum (\<lambda>e. e) particles (prediction lcg_lib (1 / 10) (3 / 10, 3 / 10, 1 / 100) 8 (1 / 5)
       \<lparr>num_particles = 1, is_initialized = True,
       particles = [\<lparr>id_p = 0, x_p = 4, y_p = 5, theta = 1, weight = 1,
                     associations = [], sense_x = [], sense_y = []\<rparr>]\<rparr>) \<and>
   map_sum (\<lambda>e. e) particles (resample lcg_lib
       \<lparr>num_particles = 1, is_initialized = False,
       particles = [\<lparr>id_p = 0, x_p = 4, y_p = 5, theta = 1, weight = 1,
                     associations = [], sense_x = [], sense_y = []\<rparr>]\<rparr>)
     = map_sum (\<lambda>e. e) particles (resample lcg_lib
       \<lparr>num_particles = 1, is_initialized = True,
       particles = [\<lparr>id_p = 0, x_p = 4, y_p = 5, theta = 1, weight = 1,
                     associations = [], sense_x = [], sense_y = []\<rparr>]\<rparr>)"
proof -
  let ?p = "[\<lparr>id_p = 0, x_p = 4, y_p = 5, theta = 1, weight = 1,
                     associations = [], sense_x = [], sense_y = []\<rparr>]"
  let ?s1 = "\<lparr>num_particles = 1, is_initialized = True, particles = ?p\<rparr>"
  let ?s2 = "\<lparr>num_particles = 1, is_initialized = False, particles = ?p\<rparr>"
  have h1: "particles ?s2 = particles ?s1" by simp
  have h2: "num_particles ?s2 = num_particles ?s1" by simp
  note t = calls_deterministic [OF h1 h2, of lcg_lib 0 0 0 "(1, 1, 1)" "1 / 10"
      "(3 / 10, 3 / 10, 1 / 100)" 8 "1 / 5"]
  have a: "map_sum (\<lambda>e. e) particles
             (prediction lcg_lib (1 / 10) (3 / 10, 3 / 10, 1 / 100) 8 (1 / 5) ?s1)
     = Inr (map2 (moved (1 / 10) 8 (1 / 5))
              (draws lcg_lib 1 (fresh lcg_lib (0, 0, 0) (3 / 10, 3 / 10, 1 / 100))) ?p)"
    using t [THEN conjunct2, THEN conjunct2, THEN conjunct2, THEN conjunct1] by simp
  have b: "map_sum (\<lambda>e. e) particles
             (prediction lcg_lib (1 / 10) (3 / 10, 3 / 10, 1 / 100) 8 (1 / 5) ?s2)
     = map_sum (\<lambda>e. e) particles
             (prediction lcg_lib (1 / 10) (3 / 10, 3 / 10, 1 / 100) 8 (1 / 5) ?s1)"
    using t [THEN conjunct2, THEN conjunct2, THEN conjunct2, THEN conjunct2, THEN conjunct2,
             THEN conjunct1] .
  have c: "map_sum (\<lambda>e. e) particles (resample lcg_lib ?s2)
     = map_sum (\<lambda>e. e) particles (resample lcg_lib ?s1)"
    using t [THEN conjunct2, THEN conjunct2, THEN conjunct2, THEN conjunct2, THEN conjunct2,
             THEN conjunct2, THEN conjunct2] .
  from h1 h2 a b c show ?thesis by (intro conjI)
qed

end
